theory Spec2Isabelle
  imports Main "HOL-Library.AList" "HOL-Library.Sublist" "HOL-Library.Multiset"
begin

section \<open>JavaScript values\<close>

text \<open>
  Values that travel through messages, storage and import files are JSON values; a
  missing property reads as \<open>undefined\<close>, which is \<open>None\<close> of \<open>jsval\<close>. Numbers are
  integers here (timestamps of \<open>Date.now()\<close>); an object is the list of its own
  properties in the order in which the engine enumerates them.
\<close>

datatype json =
    JNull
  | JBool bool
  | JNum int
  | JStr string
  | JArr "json list"
  | JObj "(string \<times> json) list"

type_synonym jsval = "json option"

text \<open>
  Every failure of background.js is an \<open>Error\<close> that the message listener turns into
  \<open>{ success: false, error: err.message }\<close>. The constructors stand for the thrown
  messages; \<open>TypeError\<close> is the exception of the JavaScript engine itself (a property
  read on \<open>null\<close>, \<open>Object.entries(null)\<close>).
\<close>

datatype error =
    SessionNameEmpty
  | NoSaveableTabs
  | SessionNotFound
  | NoRestorableTabs
  | InvalidImportFormat
  | TypeError
  | UnknownAction string

fun message_of :: "error \<Rightarrow> string" where
  "message_of SessionNameEmpty = ''Session name cannot be empty.''"
| "message_of NoSaveableTabs = ''No saveable tabs found in the current window.''"
| "message_of SessionNotFound = ''Session not found.''"
| "message_of NoRestorableTabs = ''No restorable tabs in this session.''"
| "message_of InvalidImportFormat = ''Invalid import file format.''"
| "message_of TypeError = ''TypeError''"
| "message_of (UnknownAction a) = ''Unknown action: '' @ a"

fun typeof :: "jsval \<Rightarrow> string" where
  "typeof None = ''undefined''"
| "typeof (Some JNull) = ''object''"
| "typeof (Some (JBool b)) = ''boolean''"
| "typeof (Some (JNum n)) = ''number''"
| "typeof (Some (JStr s)) = ''string''"
| "typeof (Some (JArr xs)) = ''object''"
| "typeof (Some (JObj kvs)) = ''object''"

text \<open>\<open>truthy v\<close> is the outcome of \<open>!!v\<close>.\<close>

fun truthy :: "jsval \<Rightarrow> bool" where
  "truthy None = False"
| "truthy (Some JNull) = False"
| "truthy (Some (JBool b)) = b"
| "truthy (Some (JNum n)) = (n \<noteq> 0)"
| "truthy (Some (JStr s)) = (s \<noteq> [])"
| "truthy (Some (JArr xs)) = True"
| "truthy (Some (JObj kvs)) = True"

text \<open>\<open>jsOr a b\<close> is \<open>a || b\<close>.\<close>

definition jsOr :: "jsval \<Rightarrow> jsval \<Rightarrow> jsval" where
  "jsOr a b = (if truthy a then a else b)"

text \<open>
  \<open>getProp v k\<close> is the property read \<open>v.k\<close> on a value that is not \<open>null\<close>, for the
  property names the program reads (\<open>sessions\<close>, \<open>id\<close>, \<open>name\<close>, \<open>createdAt\<close>, \<open>tabs\<close>,
  \<open>url\<close>, \<open>title\<close>): an object yields its own property, every other value yields
  \<open>undefined\<close>. A read on \<open>null\<close> throws, which the callers write out, and so do the
  callers that read \<open>name\<close> or \<open>tabs\<close>, which an object may inherit (see \<open>entryName\<close>
  and \<open>entryTabs\<close>).
\<close>

fun getProp :: "json \<Rightarrow> string \<Rightarrow> jsval" where
  "getProp (JObj kvs) k = map_of kvs k"
| "getProp v k = None"

fun digit :: "nat \<Rightarrow> char" where
  "digit n = ''0123456789'' ! (n mod 10)"

function show_nat :: "nat \<Rightarrow> string" where
  "show_nat n = (if n < 10 then [digit n] else show_nat (n div 10) @ [digit n])"
  by pat_completeness auto
termination
  by (relation "measure (\<lambda>n. n)") auto

text \<open>
  \<open>Object.entries\<close>: the own properties of an object, the indexed elements of an array
  or of a string, nothing for a number or a boolean, and a TypeError for \<open>null\<close>.
\<close>

fun objectEntries :: "json \<Rightarrow> error + (string \<times> json) list" where
  "objectEntries JNull = Inl TypeError"
| "objectEntries (JObj kvs) = Inr kvs"
| "objectEntries (JArr xs) = Inr (zip (map show_nat [0..<length xs]) xs)"
| "objectEntries (JStr s) = Inr (zip (map show_nat [0..<length s]) (map (\<lambda>c. JStr [c]) s))"
| "objectEntries (JBool b) = Inr []"
| "objectEntries (JNum n) = Inr []"

text \<open>
  \<open>String.prototype.trim\<close>. A string is the list of the bytes of its UTF-8 encoding, and
  \<open>whiteSpace\<close> lists the encodings of the code points that \<open>trim\<close> strips: the white
  space and line terminators U+0009 to U+000D, U+0020, U+00A0, U+1680, U+2000 to U+200A,
  U+2028, U+2029, U+202F, U+205F, U+3000 and U+FEFF. \<open>strip ws s\<close> removes them from the
  front of \<open>s\<close>.
\<close>

definition whiteSpace :: "string list" where
  "whiteSpace =
     [[CHR 0x09], [CHR 0x0A], [CHR 0x0B], [CHR 0x0C], [CHR 0x0D], [CHR 0x20],
      [CHR 0xC2, CHR 0xA0], [CHR 0xE1, CHR 0x9A, CHR 0x80], [CHR 0xE2, CHR 0x80, CHR 0x80],
      [CHR 0xE2, CHR 0x80, CHR 0x81], [CHR 0xE2, CHR 0x80, CHR 0x82],
      [CHR 0xE2, CHR 0x80, CHR 0x83], [CHR 0xE2, CHR 0x80, CHR 0x84],
      [CHR 0xE2, CHR 0x80, CHR 0x85], [CHR 0xE2, CHR 0x80, CHR 0x86],
      [CHR 0xE2, CHR 0x80, CHR 0x87], [CHR 0xE2, CHR 0x80, CHR 0x88],
      [CHR 0xE2, CHR 0x80, CHR 0x89], [CHR 0xE2, CHR 0x80, CHR 0x8A],
      [CHR 0xE2, CHR 0x80, CHR 0xA8], [CHR 0xE2, CHR 0x80, CHR 0xA9],
      [CHR 0xE2, CHR 0x80, CHR 0xAF], [CHR 0xE2, CHR 0x81, CHR 0x9F],
      [CHR 0xE3, CHR 0x80, CHR 0x80], [CHR 0xEF, CHR 0xBB, CHR 0xBF]]"

function strip :: "string list \<Rightarrow> string \<Rightarrow> string" where
  "strip ws s =
     (case find (\<lambda>w. w \<noteq> [] \<and> prefix w s) ws of
        None \<Rightarrow> s
      | Some w \<Rightarrow> strip ws (drop (length w) s))"
  by pat_completeness auto
termination
proof (relation "measure (\<lambda>(ws, s). length s)")
  show "wf (measure (\<lambda>(ws, s). length s))" by simp
next
  fix ws :: "string list" and s w :: string
  assume "find (\<lambda>w. w \<noteq> [] \<and> prefix w s) ws = Some w"
  then have "w \<noteq> []" and "prefix w s"
    by (auto simp: find_Some_iff)
  then show "((ws, drop (length w) s), (ws, s)) \<in> measure (\<lambda>(ws, s). length s)"
    by (auto simp: prefix_def)
qed

definition trim :: "string \<Rightarrow> string" where
  "trim s = rev (strip (map rev whiteSpace) (rev (strip whiteSpace s)))"

section \<open>URL validation (background.js)\<close>

definition blocked :: "string list" where
  "blocked = [''chrome://'', ''chrome-extension://'', ''about:'', ''edge://'', ''brave://'',
     ''javascript:'', ''data:'']"

text \<open>\<open>startsWith url p\<close> is \<open>url.startsWith(p)\<close>.\<close>

definition startsWith :: "string \<Rightarrow> string \<Rightarrow> bool" where
  "startsWith url p \<longleftrightarrow> take (length p) url = p"

definition isSafeUrl :: "jsval \<Rightarrow> bool" where
  "isSafeUrl url =
     (if \<not> truthy url \<or> typeof url \<noteq> ''string'' then False
      else case url of
          Some (JStr s) \<Rightarrow> \<not> list_ex (\<lambda>p. startsWith s p) blocked
        | _ \<Rightarrow> False)"

section \<open>Data model\<close>

text \<open>
  A stored tab is the object \<open>{ url, title }\<close>; a tab of the browser window also has
  its \<open>id\<close> and whether it is the foreground tab. A session is the object
  \<open>{ id, name, createdAt, tabs }\<close>; its \<open>name\<close> is \<open>None\<close> where the object has no name
  of its own, which is how \<open>importSessions\<close> stores a session whose name was an inherited
  one. The records keep the properties the program reads
  or writes by name; any other property that the spread \<open>{ ...session, tabs: safeTabs }\<close>
  of an import carries along is read by no operation and is left out. The values of
  \<open>url\<close> and \<open>title\<close> are whatever the browser or an import file supplied.

  The collection is the object stored under \<open>sessions\<close>, as the list of its own
  properties in the order in which the engine enumerates them. Session ids and names in
  messages are strings, and the calls into the browser (storage and tabs) succeed.
\<close>

record tab =
  url :: jsval
  title :: jsval

record live_tab = tab +
  tabId :: nat
  active :: bool

record session =
  session_id :: string
  name :: "string option"
  createdAt :: int
  tabs :: "tab list"

text \<open>
  \<open>sessions[id]\<close> reads a property of a plain object, so where the collection has no own
  property \<open>id\<close> it yields what every object inherits from \<open>Object.prototype\<close>: one of
  eleven functions, or for \<open>__proto__\<close> the prototype itself. \<open>updateSession\<close> and
  \<open>renameSession\<close> assign to \<open>tabs\<close> and \<open>name\<close> of what \<open>sessions[id]\<close> yields, so
  the objects of the service worker carry state of their own until the worker is stopped:
  the \<open>tabs\<close> written on the inherited functions, \<open>tabs\<close> and \<open>name\<close> written on
  \<open>Object.prototype\<close> (from then on inherited by every object, under the names \<open>tabs\<close>
  and \<open>name\<close> as well), and the \<open>tabs\<close> written on the array that is
  \<open>Object.prototype.tabs\<close>. background.js is a classic script: an assignment to the
  read-only \<open>name\<close> of a function or to a property of a string does nothing. A \<open>name\<close>
  written on the array that is \<open>Object.prototype.tabs\<close> is read by nothing and is not
  kept.
\<close>

definition functionNames :: "string list" where
  "functionNames = [''constructor'', ''__defineGetter__'', ''__defineSetter__'',
     ''hasOwnProperty'', ''__lookupGetter__'', ''__lookupSetter__'', ''isPrototypeOf'',
     ''propertyIsEnumerable'', ''toString'', ''valueOf'', ''toLocaleString'']"

definition inheritedNames :: "string list" where
  "inheritedNames = ''__proto__'' # functionNames"

record worker_state =
  functionTabs :: "(string \<times> tab list) list"
  prototypeTabs :: "tab list option"
  arrayTabs :: "tab list option"
  prototypeName :: "string option"

definition freshWorker :: worker_state where
  "freshWorker = \<lparr>functionTabs = [], prototypeTabs = None, arrayTabs = None, prototypeName = None\<rparr>"

text \<open>What \<open>sessions[id]\<close> yields; \<open>Missing\<close> is \<open>undefined\<close> or an empty string.\<close>

datatype found =
    Own session
  | InheritedFunction string
  | ObjectPrototype
  | PrototypeTabs
  | PrototypeName
  | Missing

definition lookupSession :: "worker_state \<Rightarrow> (string \<times> session) list \<Rightarrow> string \<Rightarrow> found" where
  "lookupSession w ss k =
     (case map_of ss k of
        Some s \<Rightarrow> Own s
      | None \<Rightarrow>
          if k = ''__proto__'' then ObjectPrototype
          else if k \<in> set functionNames then InheritedFunction k
          else if k = ''tabs'' \<and> prototypeTabs w \<noteq> None then PrototypeTabs
          else if k = ''name'' \<and> prototypeName w \<noteq> None \<and> prototypeName w \<noteq> Some []
            then PrototypeName
          else Missing)"

text \<open>\<open>session.tabs\<close> of what was found (\<open>None\<close> is \<open>undefined\<close>).\<close>

definition readTabs :: "worker_state \<Rightarrow> found \<Rightarrow> tab list option" where
  "readTabs w v =
     (case v of
        Own s \<Rightarrow> Some (tabs s)
      | InheritedFunction k \<Rightarrow>
          (case map_of (functionTabs w) k of Some ts \<Rightarrow> Some ts | None \<Rightarrow> prototypeTabs w)
      | ObjectPrototype \<Rightarrow> prototypeTabs w
      | PrototypeTabs \<Rightarrow> (case arrayTabs w of Some ts \<Rightarrow> Some ts | None \<Rightarrow> prototypeTabs w)
      | PrototypeName \<Rightarrow> prototypeTabs w
      | Missing \<Rightarrow> None)"

text \<open>
  \<open>sessions[id].tabs = ts\<close> and \<open>sessions[id].name = n\<close> where \<open>sessions[id]\<close> is
  inherited.
\<close>

definition writeTabs :: "found \<Rightarrow> tab list \<Rightarrow> worker_state \<Rightarrow> worker_state" where
  "writeTabs v ts w =
     (case v of
        InheritedFunction k \<Rightarrow> w\<lparr>functionTabs := AList.update k ts (functionTabs w)\<rparr>
      | ObjectPrototype \<Rightarrow> w\<lparr>prototypeTabs := Some ts, arrayTabs := None\<rparr>
      | PrototypeTabs \<Rightarrow> w\<lparr>arrayTabs := Some ts\<rparr>
      | _ \<Rightarrow> w)"

definition writeName :: "found \<Rightarrow> string \<Rightarrow> worker_state \<Rightarrow> worker_state" where
  "writeName v n w =
     (case v of
        ObjectPrototype \<Rightarrow> w\<lparr>prototypeName := Some n\<rparr>
      | _ \<Rightarrow> w)"

text \<open>
  \<open>sessions[id] = s\<close>: an own property keeps its place; a new one whose name is an array
  index (the decimal numeral of an integer below \<open>2^32 - 1\<close>) goes among the indices in
  ascending order, before all other names; any other new one goes to the end.
\<close>

definition indexOf :: "string \<Rightarrow> int" where
  "indexOf k = foldl (\<lambda>n c. 10 * n + (of_char c - 48)) 0 k"

definition isArrayIndex :: "string \<Rightarrow> bool" where
  "isArrayIndex k \<longleftrightarrow>
     k \<noteq> [] \<and> list_all (\<lambda>c. c \<in> set ''0123456789'') k \<and> (length k = 1 \<or> hd k \<noteq> CHR ''0'')
     \<and> indexOf k < 4294967295"

fun insertIndex :: "string \<Rightarrow> 'v \<Rightarrow> (string \<times> 'v) list \<Rightarrow> (string \<times> 'v) list" where
  "insertIndex k v [] = [(k, v)]"
| "insertIndex k v (p # ps) =
     (if isArrayIndex (fst p) \<and> indexOf (fst p) < indexOf k then p # insertIndex k v ps
      else (k, v) # p # ps)"

definition objSet :: "string \<Rightarrow> 'v \<Rightarrow> (string \<times> 'v) list \<Rightarrow> (string \<times> 'v) list" where
  "objSet k v ps =
     (if k \<in> fst ` set ps then AList.update k v ps
      else if isArrayIndex k then insertIndex k v ps
      else ps @ [(k, v)])"

text \<open>
  The host: the two keys of \<open>chrome.storage.local\<close> (\<open>None\<close> when the key is absent),
  the tabs of the current window with the next tab id the browser will hand out, and the
  state of the service worker's objects.
\<close>

record host =
  sessions :: "(string \<times> session) list option"
  activeSessionId :: "string option"
  windowTabs :: "live_tab list"
  nextTabId :: nat
  worker :: worker_state

section \<open>Tab-control surface\<close>

text \<open>
  \<open>chrome.tabs.query({ currentWindow: true })\<close>, \<open>chrome.tabs.create({ url, active })\<close>
  and \<open>chrome.tabs.remove(ids)\<close>. A created tab goes to the end of the window under a
  fresh id; when it is created as the foreground tab the others stop being it.
\<close>

definition tabsQuery :: "host \<Rightarrow> live_tab list" where
  "tabsQuery h = windowTabs h"

definition tabsCreate :: "jsval \<Rightarrow> bool \<Rightarrow> host \<Rightarrow> host" where
  "tabsCreate u a h =
     h\<lparr>windowTabs :=
         (if a then map (\<lambda>t. t\<lparr>active := False\<rparr>) (windowTabs h) else windowTabs h)
         @ [\<lparr>url = u, title = None, tabId = nextTabId h, active = a\<rparr>],
       nextTabId := Suc (nextTabId h)\<rparr>"

definition tabsRemove :: "nat list \<Rightarrow> host \<Rightarrow> host" where
  "tabsRemove ids h = h\<lparr>windowTabs := filter (\<lambda>t. tabId t \<notin> set ids) (windowTabs h)\<rparr>"

datatype tab_call = TabsCreate jsval bool | TabsRemove "nat list"

fun exec :: "tab_call \<Rightarrow> host \<Rightarrow> host" where
  "exec (TabsCreate u a) h = tabsCreate u a h"
| "exec (TabsRemove ids) h = tabsRemove ids h"

text \<open>The host after every call of a sequence, in order, and the host after the last.\<close>

fun traceCalls :: "tab_call list \<Rightarrow> host \<Rightarrow> host list" where
  "traceCalls [] h = []"
| "traceCalls (c # cs) h = exec c h # traceCalls cs (exec c h)"

fun runCalls :: "tab_call list \<Rightarrow> host \<Rightarrow> host" where
  "runCalls [] h = h"
| "runCalls (c # cs) h = runCalls cs (exec c h)"

section \<open>Storage helpers and handlers (background.js)\<close>

definition readSessions :: "host \<Rightarrow> (string \<times> session) list" where
  "readSessions h = (case sessions h of None \<Rightarrow> [] | Some ss \<Rightarrow> ss)"

definition writeSessions :: "(string \<times> session) list \<Rightarrow> host \<Rightarrow> host" where
  "writeSessions ss h = h\<lparr>sessions := Some ss\<rparr>"

definition getSessions :: "host \<Rightarrow> (error + (string \<times> session) list \<times> string option) \<times> host" where
  "getSessions h = (Inr (readSessions h, activeSessionId h), h)"

text \<open>
  \<open>tabs.filter((tab) => isSafeUrl(tab.url))\<close>, the filter of save, update and restore.
\<close>

definition safeFilter :: "('a tab_scheme) list \<Rightarrow> ('a tab_scheme) list" where
  "safeFilter ts = filter (\<lambda>tab. isSafeUrl (url tab)) ts"

text \<open>
  \<open>tabs.filter(...).map((tab) => ({ url: tab.url, title: tab.title || tab.url }))\<close>.
\<close>

definition captureTabs :: "live_tab list \<Rightarrow> tab list" where
  "captureTabs ts =
     map (\<lambda>tab. \<lparr>url = url tab, title = jsOr (title tab) (url tab)\<rparr>) (safeFilter ts)"

text \<open>
  \<open>saveSession\<close>; \<open>uuid\<close> is the result of \<open>crypto.randomUUID()\<close>, a string of 36
  hexadecimal digits and hyphens and so none of \<open>inheritedNames\<close>; \<open>now\<close> is the result
  of \<open>Date.now()\<close>.
\<close>

definition saveSession :: "string \<Rightarrow> string \<Rightarrow> int \<Rightarrow> host \<Rightarrow> (error + session) \<times> host" where
  "saveSession nm uuid now h =
     (if nm = [] \<or> trim nm = [] then (Inl SessionNameEmpty, h)
      else
        let filteredTabs = captureTabs (tabsQuery h) in
        if length filteredTabs = 0 then (Inl NoSaveableTabs, h)
        else
          let ss = readSessions h;
              s = \<lparr>session_id = uuid, name = Some (trim nm), createdAt = now, tabs = filteredTabs\<rparr>;
              ss' = objSet uuid s ss
          in (Inr s, writeSessions ss' h))"

text \<open>
  The tab calls of \<open>restoreSession\<close> for a non-empty list of safe tabs, in the order in
  which the source issues them.
\<close>

definition restoreCalls :: "bool \<Rightarrow> tab \<Rightarrow> tab list \<Rightarrow> live_tab list \<Rightarrow> tab_call list" where
  "restoreCalls closeCurrentTabs first rest currentTabs =
     (if closeCurrentTabs then
        (let tabsToClose = map tabId currentTabs in
         [TabsCreate (url first) True, TabsRemove tabsToClose]
         @ (if length (first # rest) > 1 then map (\<lambda>tab. TabsCreate (url tab) False) rest else []))
      else map (\<lambda>tab. TabsCreate (url tab) False) (first # rest))"

definition restoreSession :: "string \<Rightarrow> bool \<Rightarrow> host \<Rightarrow> (error + int) \<times> host" where
  "restoreSession sessionId closeCurrentTabs h =
     (case lookupSession (worker h) (readSessions h) sessionId of
        Missing \<Rightarrow> (Inl SessionNotFound, h)
      | session \<Rightarrow>
          (case readTabs (worker h) session of
             None \<Rightarrow> (Inl TypeError, h)
           | Some sessionTabs \<Rightarrow>
               (case safeFilter sessionTabs of
                  [] \<Rightarrow> (Inl NoRestorableTabs, h)
                | first # rest \<Rightarrow>
                    let h1 = runCalls (restoreCalls closeCurrentTabs first rest (tabsQuery h)) h;
                        h2 = h1\<lparr>activeSessionId := Some sessionId\<rparr>;
                        skipped = int (length sessionTabs) - int (length (first # rest))
                    in (Inr skipped, h2))))"

text \<open>
  \<open>updateSession\<close> answers with \<open>sessions[sessionId]\<close> after the assignment of \<open>tabs\<close>.
\<close>

definition updateSession :: "string \<Rightarrow> host \<Rightarrow> (error + found) \<times> host" where
  "updateSession sessionId h =
     (let ss = readSessions h in
      case lookupSession (worker h) ss sessionId of
        Missing \<Rightarrow> (Inl SessionNotFound, h)
      | session \<Rightarrow>
          let filteredTabs = captureTabs (tabsQuery h) in
          if length filteredTabs = 0 then (Inl NoSaveableTabs, h)
          else
            (case session of
               Own s \<Rightarrow>
                 let s' = s\<lparr>tabs := filteredTabs\<rparr>;
                     ss' = objSet sessionId s' ss
                 in (Inr (Own s'), writeSessions ss' h)
             | inherited \<Rightarrow>
                 (Inr inherited,
                  writeSessions ss (h\<lparr>worker := writeTabs inherited filteredTabs (worker h)\<rparr>))))"

definition deleteSession :: "string \<Rightarrow> host \<Rightarrow> (error + unit) \<times> host" where
  "deleteSession sessionId h =
     (let ss = readSessions h in
      case lookupSession (worker h) ss sessionId of
        Missing \<Rightarrow> (Inl SessionNotFound, h)
      | session \<Rightarrow>
          let h1 = writeSessions (AList.delete sessionId ss) h;
              h2 = (if activeSessionId h1 = Some sessionId
                    then h1\<lparr>activeSessionId := None\<rparr> else h1)
          in (Inr (), h2))"

definition renameSession :: "string \<Rightarrow> string \<Rightarrow> host \<Rightarrow> (error + unit) \<times> host" where
  "renameSession sessionId newName h =
     (if newName = [] \<or> trim newName = [] then (Inl SessionNameEmpty, h)
      else
        let ss = readSessions h in
        case lookupSession (worker h) ss sessionId of
          Missing \<Rightarrow> (Inl SessionNotFound, h)
        | Own s \<Rightarrow>
            let ss' = objSet sessionId (s\<lparr>name := Some (trim newName)\<rparr>) ss
            in (Inr (), writeSessions ss' h)
        | inherited \<Rightarrow>
            (Inr (),
             writeSessions ss (h\<lparr>worker := writeName inherited (trim newName) (worker h)\<rparr>)))"

definition exportSessions :: "host \<Rightarrow> (error + (string \<times> session) list) \<times> host" where
  "exportSessions h = (Inr (readSessions h), h)"

text \<open>
  The value that \<open>JSON.stringify\<close> writes for a stored tab and a stored session and
  \<open>JSON.parse\<close> reads back: a property whose value is \<open>undefined\<close> is not written.
\<close>

definition tabToJson :: "tab \<Rightarrow> json" where
  "tabToJson t =
     JObj ((case url t of None \<Rightarrow> [] | Some u \<Rightarrow> [(''url'', u)])
         @ (case title t of None \<Rightarrow> [] | Some v \<Rightarrow> [(''title'', v)]))"

definition sessionToJson :: "session \<Rightarrow> json" where
  "sessionToJson s =
     JObj ([(''id'', JStr (session_id s))]
         @ (case name s of None \<Rightarrow> [] | Some n \<Rightarrow> [(''name'', JStr n)])
         @ [(''createdAt'', JNum (createdAt s)), (''tabs'', JArr (map tabToJson (tabs s)))])"

text \<open>
  \<open>session.name\<close> and \<open>session.tabs\<close> of an entry of the import file: its own property,
  or what \<open>Object.prototype\<close> has under that name.
\<close>

definition entryName :: "worker_state \<Rightarrow> json \<Rightarrow> jsval" where
  "entryName w s =
     (case getProp s ''name'' of Some v \<Rightarrow> Some v | None \<Rightarrow> map_option JStr (prototypeName w))"

definition entryTabs :: "worker_state \<Rightarrow> json \<Rightarrow> jsval" where
  "entryTabs w s =
     (case getProp s ''tabs'' of
        Some v \<Rightarrow> Some v
      | None \<Rightarrow> map_option (\<lambda>ts. JArr (map tabToJson ts)) (prototypeTabs w))"

text \<open>
  One round of the loop of \<open>importSessions\<close>. An entry is skipped, before anything of it
  is read, when \<open>existing[id]\<close> yields something; the reads \<open>session.id\<close> and \<open>tab.url\<close>
  throw on \<open>null\<close>; the four \<open>typeof\<close>/\<open>Array.isArray\<close> tests are the pattern of the
  \<open>case\<close>; the stored object is \<open>{ ...session, tabs: safeTabs }\<close>, which has the name
  of the entry only when that is a property of its own.
\<close>

definition toTab :: "json \<Rightarrow> tab" where
  "toTab j = \<lparr>url = getProp j ''url'', title = getProp j ''title''\<rparr>"

definition importEntry ::
  "worker_state \<Rightarrow> (string \<times> session) list \<Rightarrow> nat \<Rightarrow> string \<Rightarrow> json
     \<Rightarrow> error + (string \<times> session) list \<times> nat" where
  "importEntry w existing imported k s =
     (if lookupSession w existing k \<noteq> Missing then Inr (existing, imported)
      else if s = JNull then Inl TypeError
      else case (getProp s ''id'', entryName w s, getProp s ''createdAt'', entryTabs w s) of
          (Some (JStr i), Some (JStr n), Some (JNum c), Some (JArr ts)) \<Rightarrow>
            if JNull \<in> set ts then Inl TypeError
            else
              let safeTabs = filter (\<lambda>tab. typeof (getProp tab ''url'') = ''string''
                                          \<and> isSafeUrl (getProp tab ''url'')) ts
              in Inr (objSet k
                        \<lparr>session_id = i, name = map_option (\<lambda>own. n) (getProp s ''name''),
                         createdAt = c, tabs = map toTab safeTabs\<rparr>
                        existing,
                      Suc imported)
        | _ \<Rightarrow> Inr (existing, imported))"

fun importLoop ::
  "worker_state \<Rightarrow> (string \<times> json) list \<Rightarrow> (string \<times> session) list \<Rightarrow> nat
     \<Rightarrow> error + (string \<times> session) list \<times> nat" where
  "importLoop w [] existing imported = Inr (existing, imported)"
| "importLoop w ((k, s) # entries) existing imported =
     (case importEntry w existing imported k s of
        Inl e \<Rightarrow> Inl e
      | Inr (existing', imported') \<Rightarrow> importLoop w entries existing' imported')"

definition importSessions :: "jsval \<Rightarrow> host \<Rightarrow> (error + nat) \<times> host" where
  "importSessions data h =
     (case data of
        None \<Rightarrow> (Inl InvalidImportFormat, h)
      | Some d \<Rightarrow>
          if \<not> truthy data \<or> typeof data \<noteq> ''object'' \<or> typeof (getProp d ''sessions'') \<noteq> ''object''
          then (Inl InvalidImportFormat, h)
          else
            (case getProp d ''sessions'' of
               None \<Rightarrow> (Inl InvalidImportFormat, h)
             | Some dsessions \<Rightarrow>
                 (case objectEntries dsessions of
                    Inl e \<Rightarrow> (Inl e, h)
                  | Inr entries \<Rightarrow>
                      (case importLoop (worker h) entries (readSessions h) 0 of
                         Inl e \<Rightarrow> (Inl e, h)
                       | Inr (existing, imported) \<Rightarrow> (Inr imported, writeSessions existing h)))))"

datatype message =
    GetSessions
  | SaveSession string
  | RestoreSession string bool
  | DeleteSession string
  | RenameSession string string
  | ExportSessions
  | ImportSessions jsval
  | UpdateSession string
  | OtherAction string

datatype response =
    SessionsResponse "(string \<times> session) list" "string option"
  | SessionResponse session
  | UpdateResponse found
  | RestoreResponse int
  | SuccessResponse
  | ExportResponse "(string \<times> session) list"
  | ImportResponse nat

definition respond :: "('a \<Rightarrow> response) \<Rightarrow> (error + 'a) \<times> host \<Rightarrow> (error + response) \<times> host" where
  "respond f r = (case fst r of Inl e \<Rightarrow> Inl e | Inr x \<Rightarrow> Inr (f x), snd r)"

fun handleMessage :: "string \<Rightarrow> int \<Rightarrow> message \<Rightarrow> host \<Rightarrow> (error + response) \<times> host" where
  "handleMessage uuid now GetSessions h =
     respond (\<lambda>(ss, a). SessionsResponse ss a) (getSessions h)"
| "handleMessage uuid now (SaveSession nm) h =
     respond SessionResponse (saveSession nm uuid now h)"
| "handleMessage uuid now (RestoreSession sessionId closeCurrentTabs) h =
     respond RestoreResponse (restoreSession sessionId closeCurrentTabs h)"
| "handleMessage uuid now (DeleteSession sessionId) h =
     respond (\<lambda>u. SuccessResponse) (deleteSession sessionId h)"
| "handleMessage uuid now (RenameSession sessionId newName) h =
     respond (\<lambda>u. SuccessResponse) (renameSession sessionId newName h)"
| "handleMessage uuid now ExportSessions h =
     respond ExportResponse (exportSessions h)"
| "handleMessage uuid now (ImportSessions data) h =
     respond ImportResponse (importSessions data h)"
| "handleMessage uuid now (UpdateSession sessionId) h =
     respond UpdateResponse (updateSession sessionId h)"
| "handleMessage uuid now (OtherAction a) h = (Inl (UnknownAction a), h)"

text \<open>
  The hosts the extension can be in: a fresh profile with any window, then any message
  handled by the service worker, with any result of \<open>crypto.randomUUID()\<close> and
  \<open>Date.now()\<close>, any change of the window by the user and any stop of the idle service
  worker in between.
\<close>

inductive reachable :: "host \<Rightarrow> bool" where
  fresh: "reachable \<lparr>sessions = None, activeSessionId = None, windowTabs = w, nextTabId = n,
                      worker = freshWorker\<rparr>"
| handled: "reachable h \<Longrightarrow> uuid \<notin> set inheritedNames
              \<Longrightarrow> reachable (snd (handleMessage uuid now m h))"
| browsed: "reachable h \<Longrightarrow> reachable (h\<lparr>windowTabs := w, nextTabId := n\<rparr>)"
| stopped: "reachable h \<Longrightarrow> reachable (h\<lparr>worker := freshWorker\<rparr>)"

text \<open>
  The keys of the collection are distinct, none is a name that every object inherits, and
  no stored tab is one the filter rejects.
\<close>

definition safeStored :: "(string \<times> session) list \<Rightarrow> bool" where
  "safeStored ss \<longleftrightarrow>
     distinct (map fst ss)
     \<and> (\<forall>(k, s)\<in>set ss. k \<notin> set inheritedNames \<and> safeFilter (tabs s) = tabs s)"

section \<open>Export file (popup.js)\<close>

text \<open>
  The popup writes \<open>JSON.stringify({ sessions: res.sessions }, null, 2)\<close> to the file and
  sends \<open>JSON.parse\<close> of a chosen file to \<open>importSessions\<close>. \<open>exportPayload\<close> is the
  value that comes back from the file: a property whose value is \<open>undefined\<close> is not
  written.
\<close>

definition exportPayload :: "(string \<times> session) list \<Rightarrow> json" where
  "exportPayload ss = JObj [(''sessions'', JObj (map (\<lambda>(k, s). (k, sessionToJson s)) ss))]"

text \<open>
  \<open>exportSessions\<close> of popup.js: the content of the file it offers for download, read
  back; nothing when the service worker answers with a failure.
\<close>

definition popupExport :: "host \<Rightarrow> jsval" where
  "popupExport h =
     (case fst (exportSessions h) of
        Inl e \<Rightarrow> None
      | Inr ss \<Rightarrow> Some (exportPayload ss))"

text \<open>
  What \<open>importSessions\<close> makes of a session that was exported: the session with the
  safe-filter of its tabs.
\<close>

definition reimported :: "session \<Rightarrow> session" where
  "reimported s = s\<lparr>tabs := safeFilter (tabs s)\<rparr>"

section \<open>Activity classification (popup.js)\<close>

text \<open>
  \<open>new Set(currentTabs.map((t) => t.url))\<close> of \<open>loadAndRender\<close>; \<open>size\<close> is \<open>card\<close> and
  \<open>has\<close> is membership.
\<close>

definition currentUrlSet :: "live_tab list \<Rightarrow> jsval set" where
  "currentUrlSet currentTabs = set (map url currentTabs)"

text \<open>The constants of \<open>buildSessionCard\<close>.\<close>

definition isTracked :: "session \<Rightarrow> string option \<Rightarrow> bool" where
  "isTracked s activeId \<longleftrightarrow> Some (session_id s) = activeId"

definition tabsMatch :: "session \<Rightarrow> jsval set \<Rightarrow> bool" where
  "tabsMatch s currentUrls \<longleftrightarrow>
     length (tabs s) > 0 \<and>
     length (tabs s) = card currentUrls \<and>
     list_all (\<lambda>tab. url tab \<in> currentUrls) (tabs s)"

definition isClean :: "session \<Rightarrow> jsval set \<Rightarrow> string option \<Rightarrow> bool" where
  "isClean s currentUrls activeId \<longleftrightarrow> isTracked s activeId \<and> tabsMatch s currentUrls"

definition isModified :: "session \<Rightarrow> jsval set \<Rightarrow> string option \<Rightarrow> bool" where
  "isModified s currentUrls activeId \<longleftrightarrow> isTracked s activeId \<and> \<not> tabsMatch s currentUrls"

definition isExact :: "session \<Rightarrow> jsval set \<Rightarrow> string option \<Rightarrow> bool" where
  "isExact s currentUrls activeId \<longleftrightarrow> \<not> isTracked s activeId \<and> tabsMatch s currentUrls"

text \<open>
  The test of \<open>renderSessions\<close> that shows the unsaved-changes banner. The popup is a page
  of its own, whose objects no operation has written to: there \<open>sessions[activeSessionId]\<close>
  of an inherited name has no \<open>tabs\<close>, and reading \<open>tabs.length\<close> throws.
\<close>

definition bannerMatch :: "session \<Rightarrow> jsval set \<Rightarrow> bool" where
  "bannerMatch s currentUrls \<longleftrightarrow>
     length (tabs s) = card currentUrls \<and>
     list_all (\<lambda>tab. url tab \<in> currentUrls) (tabs s)"

definition renderSessions_isModified ::
  "(string \<times> session) list \<Rightarrow> jsval set \<Rightarrow> string option \<Rightarrow> error + bool" where
  "renderSessions_isModified ss currentUrls activeId =
     (case activeId of
        None \<Rightarrow> Inr False
      | Some a \<Rightarrow>
          if \<not> truthy (Some (JStr a)) then Inr False
          else
            (case lookupSession freshWorker ss a of
               Missing \<Rightarrow> Inr False
             | Own activeSession \<Rightarrow> Inr (\<not> bannerMatch activeSession currentUrls)
             | inherited \<Rightarrow> Inl TypeError))"

section \<open>Example data\<close>

text \<open>
  A session with one tab that the filter rejects, in a window that shows two other tabs.
\<close>

definition tabA :: tab where
  "tabA = \<lparr>url = Some (JStr ''https://a.com''), title = Some (JStr ''A'')\<rparr>"

definition tabB :: tab where
  "tabB = \<lparr>url = Some (JStr ''https://b.com''), title = Some (JStr ''B'')\<rparr>"

definition tabSettings :: tab where
  "tabSettings = \<lparr>url = Some (JStr ''chrome://settings''), title = Some (JStr ''Settings'')\<rparr>"

definition work :: session where
  "work = \<lparr>session_id = ''s1'', name = Some ''Work'', createdAt = 1,
            tabs = [tabA, tabSettings, tabB]\<rparr>"

definition liveX :: live_tab where
  "liveX = \<lparr>url = Some (JStr ''https://x.com''), title = Some (JStr ''X''), tabId = 1, active = True\<rparr>"

definition liveNewTab :: live_tab where
  "liveNewTab = \<lparr>url = Some (JStr ''chrome://newtab/''), title = None, tabId = 2, active = False\<rparr>"

definition liveA :: live_tab where
  "liveA = \<lparr>url = Some (JStr ''https://a.com''), title = Some (JStr ''A''), tabId = 4, active = False\<rparr>"

definition liveA' :: live_tab where
  "liveA' = \<lparr>url = Some (JStr ''https://a.com''), title = None, tabId = 7, active = False\<rparr>"

definition liveB :: live_tab where
  "liveB = \<lparr>url = Some (JStr ''https://b.com''), title = Some (JStr ''B''), tabId = 5, active = True\<rparr>"

definition liveSettings :: live_tab where
  "liveSettings = \<lparr>url = Some (JStr ''chrome://settings''), title = Some (JStr ''Settings''),
                    tabId = 6, active = False\<rparr>"

definition exampleHost :: host where
  "exampleHost = \<lparr>sessions = Some [(''s1'', work)], activeSessionId = None,
                   windowTabs = [liveX, liveNewTab], nextTabId = 3, worker = freshWorker\<rparr>"

definition freshHost :: host where
  "freshHost = \<lparr>sessions = None, activeSessionId = None, windowTabs = [liveX, liveNewTab],
                 nextTabId = 3, worker = freshWorker\<rparr>"

text \<open>
  A fresh profile in which the window is saved as "Work" and that session is restored
  beside the open tabs.
\<close>

definition savedHost :: host where
  "savedHost = snd (handleMessage ''u1'' 5 (SaveSession ''Work'') freshHost)"

definition restoredHost :: host where
  "restoredHost = snd (handleMessage ''u2'' 6 (RestoreSession ''u1'' False) savedHost)"

text \<open>
  A fresh profile whose window shows one page in two tabs; the window is saved as "Work"
  and that session is restored in place of the open tabs.
\<close>

definition twoTabsHost :: host where
  "twoTabsHost = \<lparr>sessions = None, activeSessionId = None,
     windowTabs =
       [\<lparr>url = Some (JStr ''https://a.com''), title = Some (JStr ''A''), tabId = 1, active = True\<rparr>,
        \<lparr>url = Some (JStr ''https://a.com''), title = Some (JStr ''A''), tabId = 2, active = False\<rparr>],
     nextTabId = 3, worker = freshWorker\<rparr>"

definition twoTabsRestored :: host where
  "twoTabsRestored = snd (handleMessage ''s2'' 2 (RestoreSession ''s1'' True)
                       (snd (handleMessage ''s1'' 1 (SaveSession ''Work'') twoTabsHost)))"

text \<open>
  A file whose one session has \<open>"constructor"\<close> as its \<open>id\<close>, imported into a fresh
  profile: the card of the session sends that id with its buttons. The session is then
  updated from the window and restored beside the open tabs.
\<close>

definition strayFile :: json where
  "strayFile =
     JObj [(''sessions'',
       JObj [(''k1'', JObj [(''id'', JStr ''constructor''), (''name'', JStr ''Work''),
                            (''createdAt'', JNum 1),
                            (''tabs'', JArr [JObj [(''url'', JStr ''https://a.com''),
                                                   (''title'', JStr ''A'')]])])])]"

definition importedHost :: host where
  "importedHost = snd (handleMessage ''u1'' 1 (ImportSessions (Some strayFile)) freshHost)"

definition strayHost :: host where
  "strayHost = snd (handleMessage ''u3'' 3 (RestoreSession ''constructor'' False)
                 (snd (handleMessage ''u2'' 2 (UpdateSession ''constructor'') importedHost)))"



definition emptyHost :: host where
  "emptyHost = \<lparr>sessions = None, activeSessionId = None, windowTabs = [liveX], nextTabId = 2,
                 worker = freshWorker\<rparr>"

section \<open>The safe-URL filter\<close>

lemma startsWith_prefix: "startsWith s p \<longleftrightarrow> prefix p s"
  unfolding startsWith_def
  by (metis append_eq_conv_conj prefix_def append_take_drop_id)

lemma isSafeUrl_iff:
  "isSafeUrl v \<longleftrightarrow> (\<exists>s. v = Some (JStr s) \<and> s \<noteq> [] \<and> (\<forall>p\<in>set blocked. \<not> prefix p s))"
proof (cases v)
  case None
  then show ?thesis by (simp add: isSafeUrl_def)
next
  case (Some j)
  then show ?thesis
    by (cases j) (simp_all add: isSafeUrl_def list_ex_iff startsWith_prefix)
qed

lemma isSafeUrl_string: "isSafeUrl v \<Longrightarrow> typeof v = ''string''"
  by (auto simp: isSafeUrl_iff)

text \<open>
  Claim C9. \<open>isSafeUrl\<close> accepts a value exactly when it is a non-empty string that
  begins with none of the seven prefixes of \<open>blocked\<close>; the filter keeps exactly the tabs
  whose \<open>url\<close> it accepts, and filtering a filtered list changes nothing.
\<close>

theorem safe_filter_characterised:
  "(isSafeUrl v \<longleftrightarrow> (\<exists>s. v = Some (JStr s) \<and> s \<noteq> [] \<and> (\<forall>p\<in>set blocked. \<not> prefix p s)))
   \<and> (t \<in> set (safeFilter ts) \<longleftrightarrow> t \<in> set ts \<and> isSafeUrl (url t))
   \<and> safeFilter (safeFilter ts) = safeFilter ts"
  using isSafeUrl_iff [of v] by (simp add: safeFilter_def)

theorem safe_filter_witness:
  "isSafeUrl (Some (JStr ''https://a.com''))
   \<and> \<not> isSafeUrl (Some (JStr ''chrome://settings''))
   \<and> safeFilter (safeFilter [\<lparr>url = Some (JStr ''https://a.com''), title = None\<rparr>,
                              \<lparr>url = Some (JStr ''chrome://settings''), title = None\<rparr>])
       = [\<lparr>url = Some (JStr ''https://a.com''), title = None\<rparr>]"
proof -
  let ?a = "\<lparr>url = Some (JStr ''https://a.com''), title = None\<rparr>"
  let ?c = "\<lparr>url = Some (JStr ''chrome://settings''), title = None\<rparr>"
  have "\<forall>p\<in>set blocked. \<not> prefix p ''https://a.com''"
    by (simp add: blocked_def)
  with safe_filter_characterised [of "Some (JStr ''https://a.com'')" ?a "[?a, ?c]"]
  have safe: "isSafeUrl (Some (JStr ''https://a.com''))"
    and idem: "safeFilter (safeFilter [?a, ?c]) = safeFilter [?a, ?c]"
    by simp_all
  have "''chrome://'' \<in> set blocked" and "prefix ''chrome://'' ''chrome://settings''"
    by (simp_all add: blocked_def)
  with safe_filter_characterised [of "Some (JStr ''chrome://settings'')" ?c "[?c]"]
  have unsafe: "\<not> isSafeUrl (Some (JStr ''chrome://settings''))"
    by blast
  have "safeFilter [?a, ?c] = [?a]"
    using safe unsafe by (simp add: safeFilter_def)
  with idem safe unsafe show ?thesis by simp
qed

lemma isSafeUrl_typeof: "typeof v = ''string'' \<and> isSafeUrl v \<longleftrightarrow> isSafeUrl v"
  using isSafeUrl_string by blast

lemmas example_defs = tabA_def tabB_def tabSettings_def work_def liveX_def liveNewTab_def
  liveA_def liveA'_def liveB_def liveSettings_def exampleHost_def freshHost_def

lemma isSafeUrl_examples [simp]:
  "isSafeUrl (Some (JStr ''https://a.com''))"
  "isSafeUrl (Some (JStr ''https://b.com''))"
  "isSafeUrl (Some (JStr ''https://x.com''))"
  "\<not> isSafeUrl (Some (JStr ''chrome://settings''))"
  "\<not> isSafeUrl (Some (JStr ''chrome://newtab/''))"
  "\<not> isSafeUrl None"
  by (simp_all add: isSafeUrl_def blocked_def startsWith_def)

lemma work_safe: "safeFilter (tabs work) = [tabA, tabB]"
  by (simp add: safeFilter_def example_defs)

lemma work_stored: "map_of (readSessions exampleHost) ''s1'' = Some work"
  by (simp add: readSessions_def exampleHost_def)

section \<open>Trimming\<close>

lemma find_never [simp]: "find (\<lambda>x. False) xs = None"
  by (induction xs) simp_all

lemma strip_Nil [simp]: "strip ws [] = []"
  by simp

lemma trim_Nil [simp]: "trim [] = []"
  by (simp add: trim_def)

lemma trim_nonempty: "trim s \<noteq> [] \<Longrightarrow> s \<noteq> []"
  by auto

lemma trim_blank: "trim ''  '' = []"
  by code_simp

lemma trim_examples [simp]: "trim ''Work'' = ''Work''" "trim ''Play'' = ''Play''"
  by code_simp+

lemma trim_no_break_space: "trim [CHR 0xC2, CHR 0xA0, CHR ''a'', CHR 0x20, CHR 0xEF, CHR 0xBB, CHR 0xBF] = ''a''"
  by code_simp

section \<open>Storage and tab calls\<close>

lemma readSessions_write [simp]: "readSessions (writeSessions ss h) = ss"
  by (simp add: readSessions_def writeSessions_def)

lemma writeSessions_fields [simp]:
  "activeSessionId (writeSessions ss h) = activeSessionId h"
  "windowTabs (writeSessions ss h) = windowTabs h"
  "nextTabId (writeSessions ss h) = nextTabId h"
  "worker (writeSessions ss h) = worker h"
  by (simp_all add: writeSessions_def)

lemma readSessions_other [simp]:
  "readSessions (h\<lparr>activeSessionId := a\<rparr>) = readSessions h"
  "readSessions (h\<lparr>windowTabs := w\<rparr>) = readSessions h"
  "readSessions (h\<lparr>nextTabId := n\<rparr>) = readSessions h"
  "readSessions (h\<lparr>worker := x\<rparr>) = readSessions h"
  by (simp_all add: readSessions_def)

lemma map_of_in_keys: "map_of ss k = Some v \<Longrightarrow> k \<in> fst ` set ss"
  by (metis map_of_eq_None_iff option.distinct(1))

lemma keys_delete: "fst ` set (AList.delete k ss) = fst ` set ss - {k}"
  by (induction ss) auto

lemma exec_storage [simp]:
  "sessions (exec c h) = sessions h" "activeSessionId (exec c h) = activeSessionId h"
  "worker (exec c h) = worker h"
  by (cases c; simp add: tabsCreate_def tabsRemove_def)+

lemma runCalls_storage [simp]:
  "sessions (runCalls cs h) = sessions h" "activeSessionId (runCalls cs h) = activeSessionId h"
  "worker (runCalls cs h) = worker h"
  by (induction cs arbitrary: h) simp_all

lemma readSessions_runCalls [simp]: "readSessions (runCalls cs h) = readSessions h"
  by (simp add: readSessions_def)

lemma respond_fst_Inl: "fst (respond f r) = Inl e \<longleftrightarrow> fst r = Inl e"
  by (simp add: respond_def split: sum.splits)

lemma respond_snd [simp]: "snd (respond f r) = snd r"
  by (simp add: respond_def)

lemma captureTabs_urls: "map url (captureTabs ts) = map url (safeFilter ts)"
  by (simp add: captureTabs_def comp_def)

lemma captureTabs_empty: "captureTabs ts = [] \<longleftrightarrow> safeFilter ts = []"
  by (simp add: captureTabs_def)

section \<open>Property reads and writes on the collection\<close>

lemma lookupSession_own: "map_of ss k = Some s \<Longrightarrow> lookupSession w ss k = Own s"
  by (simp add: lookupSession_def)

lemma lookupSession_Own_iff: "lookupSession w ss k = Own s \<longleftrightarrow> map_of ss k = Some s"
  by (auto simp: lookupSession_def split: option.splits)

lemma lookupSession_Missing: "lookupSession w ss k = Missing \<Longrightarrow> k \<notin> fst ` set ss"
  by (auto simp: lookupSession_def map_of_eq_None_iff [symmetric] split: option.splits if_splits)

lemma lookupSession_fresh:
  "lookupSession freshWorker ss k = Missing \<longleftrightarrow> k \<notin> fst ` set ss \<and> k \<notin> set inheritedNames"
  by (auto simp: lookupSession_def freshWorker_def inheritedNames_def
        map_of_eq_None_iff [symmetric] split: option.splits)

lemma lookupSession_constructor:
  "''constructor'' \<notin> fst ` set ss
     \<Longrightarrow> lookupSession w ss ''constructor'' = InheritedFunction ''constructor''"
  by (simp add: lookupSession_def functionNames_def map_of_eq_None_iff [symmetric]
      split: option.splits)

lemma set_insertIndex: "set (insertIndex k v ps) = insert (k, v) (set ps)"
  by (induction ps) auto

lemma map_of_insertIndex: "map_of (insertIndex k v ps) = (map_of ps)(k \<mapsto> v)"
  by (induction ps) (auto simp: fun_eq_iff)

lemma set_update_subset: "set (AList.update k v al) \<subseteq> insert (k, v) (set al)"
  by (induction al) auto

lemma set_delete_subset: "set (AList.delete k al) \<subseteq> set al"
  by (induction al) auto

lemma set_objSet: "set (objSet k v ps) \<subseteq> insert (k, v) (set ps)"
  using set_update_subset [of k v ps] by (auto simp: objSet_def set_insertIndex)

lemma keys_objSet: "fst ` set (objSet k v ps) = insert k (fst ` set ps)"
proof (cases "k \<in> fst ` set ps")
  case True
  then show ?thesis by (auto simp: objSet_def dom_update)
next
  case False
  then show ?thesis by (auto simp: objSet_def set_insertIndex)
qed

lemma map_of_append_fresh: "k \<notin> fst ` set ps \<Longrightarrow> map_of (ps @ [(k, v)]) = (map_of ps)(k \<mapsto> v)"
  by (induction ps) (auto simp: fun_eq_iff)

lemma map_of_objSet: "map_of (objSet k v ps) = (map_of ps)(k \<mapsto> v)"
  by (simp add: objSet_def map_of_insertIndex update_conv' map_of_append_fresh del: map_of_append)

lemma objSet_present: "k \<in> fst ` set ps \<Longrightarrow> map fst (objSet k v ps) = map fst ps"
  by (simp add: objSet_def update_keys) 

lemma distinct_insertIndex:
  "distinct (map fst ps) \<Longrightarrow> k \<notin> fst ` set ps \<Longrightarrow> distinct (map fst (insertIndex k v ps))"
  by (induction ps) (auto simp: set_insertIndex)

lemma distinct_objSet: "distinct (map fst ps) \<Longrightarrow> distinct (map fst (objSet k v ps))"
  by (auto simp: objSet_def distinct_update distinct_insertIndex)

lemma length_insertIndex: "length (insertIndex k v ps) = Suc (length ps)"
  by (induction ps) auto



section \<open>Restore\<close>

lemma tabsCreate_nonempty: "windowTabs (tabsCreate u a h) \<noteq> []"
  by (simp add: tabsCreate_def)

lemma trace_background_nonempty:
  "\<forall>h'\<in>set (traceCalls (map (\<lambda>tab. TabsCreate (url tab) False) ts) h). windowTabs h' \<noteq> []"
proof (induction ts arbitrary: h)
  case Nil
  show ?case by simp
next
  case (Cons t ts)
  from Cons.IH [of "tabsCreate (url t) False h"] show ?case
    by (simp add: tabsCreate_nonempty)
qed

lemma run_background_urls:
  "map url (windowTabs (runCalls (map (\<lambda>tab. TabsCreate (url tab) False) ts) h))
     = map url (windowTabs h) @ map url ts"
  by (induction ts arbitrary: h) (simp_all add: tabsCreate_def)

lemma run_background_active:
  "map active (windowTabs (runCalls (map (\<lambda>tab. TabsCreate (url tab) False) ts) h))
     = map active (windowTabs h) @ replicate (length ts) False"
  by (induction ts arbitrary: h) (simp_all add: tabsCreate_def replicate_app_Cons_same)

lemma anchor_then_remove:
  assumes "\<forall>t\<in>set (windowTabs h). tabId t < nextTabId h"
  shows "windowTabs (tabsRemove (map tabId (windowTabs h)) (tabsCreate u True h))
           = [\<lparr>url = u, title = None, tabId = nextTabId h, active = True\<rparr>]"
proof -
  have "filter (\<lambda>t. tabId t \<notin> tabId ` set (windowTabs h))
          (map (\<lambda>t. t\<lparr>active := False\<rparr>) (windowTabs h)) = []"
    by (auto simp: filter_empty_conv)
  moreover have "nextTabId h \<notin> tabId ` set (windowTabs h)"
    using assms by auto
  ultimately show ?thesis
    by (simp add: tabsRemove_def tabsCreate_def)
qed

lemma restoreCalls_close:
  "restoreCalls True first rest cur
     = TabsCreate (url first) True # TabsRemove (map tabId cur)
       # map (\<lambda>tab. TabsCreate (url tab) False) rest"
  by (simp add: restoreCalls_def)

text \<open>
  Claim C2. \<open>restoreSession(id, true)\<close> on a session whose safe tabs are \<open>first # rest\<close>
  issues, in this order, the creation of \<open>first\<close> as the foreground tab, the removal of
  every tab the window held before, and the creation of each tab of \<open>rest\<close> in order, none
  in the foreground. After every one of these calls the window holds at least one tab;
  after the removal it holds the anchor alone, and in the end it holds the safe tabs, the
  anchor in the foreground. The tab ids of the window are ids the browser has handed out
  (below \<open>nextTabId\<close>).
\<close>

theorem restore_with_close_sequence:
  assumes "map_of (readSessions h) sessionId = Some s"
    and "safeFilter (tabs s) = first # rest"
    and "\<forall>t\<in>set (windowTabs h). tabId t < nextTabId h"
  shows "restoreCalls True first rest (tabsQuery h)
           = TabsCreate (url first) True # TabsRemove (map tabId (windowTabs h))
             # map (\<lambda>tab. TabsCreate (url tab) False) rest
       \<and> snd (restoreSession sessionId True h)
           = (runCalls (restoreCalls True first rest (tabsQuery h)) h)
               \<lparr>activeSessionId := Some sessionId\<rparr>
       \<and> (\<forall>h'\<in>set (traceCalls (restoreCalls True first rest (tabsQuery h)) h).
             windowTabs h' \<noteq> [])
       \<and> windowTabs (traceCalls (restoreCalls True first rest (tabsQuery h)) h ! 1)
           = [\<lparr>url = url first, title = None, tabId = nextTabId h, active = True\<rparr>]
       \<and> map url (windowTabs (snd (restoreSession sessionId True h))) = map url (first # rest)
       \<and> map active (windowTabs (snd (restoreSession sessionId True h)))
           = True # replicate (length rest) False"
proof -
  let ?cs = "restoreCalls True first rest (tabsQuery h)"
  let ?h1 = "tabsCreate (url first) True h"
  let ?h2 = "tabsRemove (map tabId (windowTabs h)) ?h1"
  let ?bg = "map (\<lambda>tab. TabsCreate (url tab) False) rest"
  have cs: "?cs = TabsCreate (url first) True # TabsRemove (map tabId (windowTabs h)) # ?bg"
    by (simp add: restoreCalls_close tabsQuery_def)
  have w2: "windowTabs ?h2 = [\<lparr>url = url first, title = None, tabId = nextTabId h, active = True\<rparr>]"
    using assms(3) by (rule anchor_then_remove)
  have w1: "windowTabs ?h1 \<noteq> []" by (simp add: tabsCreate_def)
  have tr: "traceCalls ?cs h = ?h1 # ?h2 # traceCalls ?bg ?h2"
    by (simp add: cs)
  have run: "runCalls ?cs h = runCalls ?bg ?h2"
    by (simp add: cs)
  have res: "snd (restoreSession sessionId True h) = (runCalls ?cs h)\<lparr>activeSessionId := Some sessionId\<rparr>"
    using assms(1,2) by (simp add: restoreSession_def lookupSession_own readTabs_def Let_def)
  have nonempty: "\<forall>h'\<in>set (traceCalls ?cs h). windowTabs h' \<noteq> []"
    using w1 w2 trace_background_nonempty [of rest ?h2] by (simp add: tr)
  have urls: "map url (windowTabs (runCalls ?cs h)) = map url (first # rest)"
    by (simp add: run run_background_urls w2)
  have act: "map active (windowTabs (runCalls ?cs h)) = True # replicate (length rest) False"
    by (simp add: run run_background_active w2)
  from cs res nonempty w2 urls act show ?thesis
    by (simp add: tr)
qed

theorem restore_with_close_witness:
  "map_of (readSessions exampleHost) ''s1'' = Some work
   \<and> safeFilter (tabs work) = [tabA, tabB]
   \<and> restoreCalls True tabA [tabB] (tabsQuery exampleHost)
       = [TabsCreate (Some (JStr ''https://a.com'')) True, TabsRemove [1, 2],
          TabsCreate (Some (JStr ''https://b.com'')) False]
   \<and> map (\<lambda>h. map tabId (windowTabs h))
         (traceCalls (restoreCalls True tabA [tabB] (tabsQuery exampleHost)) exampleHost)
       = [[1, 2, 3], [3], [3, 4]]
   \<and> map url (windowTabs (snd (restoreSession ''s1'' True exampleHost)))
       = [Some (JStr ''https://a.com''), Some (JStr ''https://b.com'')]
   \<and> map active (windowTabs (snd (restoreSession ''s1'' True exampleHost))) = [True, False]"
proof -
  have ids: "\<forall>t\<in>set (windowTabs exampleHost). tabId t < nextTabId exampleHost"
    by (simp add: example_defs)
  note seq = restore_with_close_sequence [OF work_stored work_safe ids]
  have calls: "restoreCalls True tabA [tabB] (tabsQuery exampleHost)
       = [TabsCreate (Some (JStr ''https://a.com'')) True, TabsRemove [1, 2],
          TabsCreate (Some (JStr ''https://b.com'')) False]"
    using seq by (simp add: tabA_def tabB_def tabsQuery_def exampleHost_def liveX_def liveNewTab_def)
  have trace: "map (\<lambda>h. map tabId (windowTabs h))
         (traceCalls (restoreCalls True tabA [tabB] (tabsQuery exampleHost)) exampleHost)
       = [[1, 2, 3], [3], [3, 4]]"
    by (simp add: calls) (simp add: example_defs tabsCreate_def tabsRemove_def)
  from seq have urls: "map url (windowTabs (snd (restoreSession ''s1'' True exampleHost)))
       = map url [tabA, tabB]"
    and act: "map active (windowTabs (snd (restoreSession ''s1'' True exampleHost)))
       = True # replicate (length [tabB]) False"
    by blast+
  from urls act work_stored work_safe calls trace show ?thesis
    by (simp add: tabA_def tabB_def)
qed

lemma restoreSession_missing:
  "lookupSession (worker h) (readSessions h) sessionId = Missing
     \<Longrightarrow> restoreSession sessionId c h = (Inl SessionNotFound, h)"
  by (simp add: restoreSession_def)

lemma restoreSession_unknown:
  "sessionId \<notin> fst ` set (readSessions h) \<Longrightarrow> sessionId \<notin> set inheritedNames
     \<Longrightarrow> worker h = freshWorker \<Longrightarrow> restoreSession sessionId c h = (Inl SessionNotFound, h)"
  by (simp add: restoreSession_missing lookupSession_fresh)

text \<open>
  For an id that is a key of the collection \<open>restoreSession\<close> does what it is meant to:
  it fails with "No restorable tabs in this session." when the safe-filter of the stored
  tabs is empty, and otherwise returns \<open>skipped\<close> = number of stored tabs minus number of
  safe tabs, sets the pointer to the id and leaves the collection as it was.
\<close>

lemma restoreSession_stored:
  assumes "map_of (readSessions h) sessionId = Some s"
  shows "(safeFilter (tabs s) = [] \<longrightarrow>
           restoreSession sessionId c h = (Inl NoRestorableTabs, h))
      \<and> (safeFilter (tabs s) \<noteq> [] \<longrightarrow>
           fst (restoreSession sessionId c h)
             = Inr (int (length (tabs s)) - int (length (safeFilter (tabs s))))
         \<and> activeSessionId (snd (restoreSession sessionId c h)) = Some sessionId
         \<and> sessions (snd (restoreSession sessionId c h)) = sessions h
         \<and> worker (snd (restoreSession sessionId c h)) = worker h)"
  using assms
  by (auto simp: restoreSession_def lookupSession_own readTabs_def Let_def split: list.splits)

lemma restoreSession_stored_example:
  "fst (restoreSession ''s1'' True exampleHost) = Inr 1
   \<and> activeSessionId (snd (restoreSession ''s1'' True exampleHost)) = Some ''s1''
   \<and> fst (restoreSession ''s1'' False exampleHost) = Inr 1
   \<and> restoreSession ''s9'' True exampleHost = (Inl SessionNotFound, exampleHost)"
proof -
  have some: "safeFilter (tabs work) \<noteq> []" by (simp add: work_safe)
  have unknown: "restoreSession ''s9'' True exampleHost = (Inl SessionNotFound, exampleHost)"
    by (rule restoreSession_unknown)
      (simp_all add: readSessions_def exampleHost_def inheritedNames_def functionNames_def)
  from restoreSession_stored [OF work_stored, of True] some
  have b: "fst (restoreSession ''s1'' True exampleHost) = Inr 1"
    and c: "activeSessionId (snd (restoreSession ''s1'' True exampleHost)) = Some ''s1''"
    by (simp_all add: work_safe) (simp_all add: work_def)
  from restoreSession_stored [OF work_stored, of False] some
  have d: "fst (restoreSession ''s1'' False exampleHost) = Inr 1"
    by (simp add: work_safe) (simp add: work_def)
  from unknown b c d show ?thesis by simp
qed

lemma readTabs_inherited_fresh:
  "k \<in> set inheritedNames \<Longrightarrow> k \<notin> fst ` set ss
     \<Longrightarrow> readTabs freshWorker (lookupSession freshWorker ss k) = None
       \<and> lookupSession freshWorker ss k \<noteq> Missing"
  by (auto simp: lookupSession_def readTabs_def freshWorker_def inheritedNames_def
        map_of_eq_None_iff [symmetric] split: option.splits)

text \<open>
  Claim C4. \<open>restoreSession\<close> looks the session up with \<open>sessions[sessionId]\<close> and tests
  \<open>!session\<close>. For an id that is no key of the collection but the name of a property that
  every object inherits (\<open>constructor\<close>, \<open>toString\<close>, \<open>__proto__\<close> and the others of
  \<open>inheritedNames\<close>) the lookup yields the inherited value, the test passes, and in a
  service worker whose objects nothing has written to the read of \<open>session.tabs.filter\<close>
  throws the engine's TypeError: the call does not fail with "Session not found.". Nothing
  is written.
\<close>

theorem restoreSession_inherited_id:
  assumes "sessionId \<in> set inheritedNames"
    and "sessionId \<notin> fst ` set (readSessions h)"
    and "worker h = freshWorker"
  shows "restoreSession sessionId c h = (Inl TypeError, h)"
  using readTabs_inherited_fresh [OF assms(1,2)] assms(3)
  by (auto simp: restoreSession_def split: found.splits)

theorem restoreSession_inherited_id_witness:
  "restoreSession ''constructor'' False exampleHost = (Inl TypeError, exampleHost)
   \<and> ''constructor'' \<notin> fst ` set (readSessions exampleHost)
   \<and> message_of TypeError \<noteq> message_of SessionNotFound"
proof -
  have "''constructor'' \<in> set inheritedNames"
    by (simp add: inheritedNames_def functionNames_def)
  moreover have "''constructor'' \<notin> fst ` set (readSessions exampleHost)"
    and "worker exampleHost = freshWorker"
    by (simp_all add: readSessions_def exampleHost_def)
  ultimately show ?thesis
    using restoreSession_inherited_id [of "''constructor''" exampleHost False] by simp
qed

section \<open>Update\<close>

lemma window_safe: "safeFilter (tabsQuery exampleHost) = [liveX]"
  by (simp add: safeFilter_def tabsQuery_def example_defs)

lemma updateSession_missing:
  "lookupSession (worker h) (readSessions h) sessionId = Missing
     \<Longrightarrow> updateSession sessionId h = (Inl SessionNotFound, h)"
  by (simp add: updateSession_def)

lemma updateSession_unknown:
  "sessionId \<notin> fst ` set (readSessions h) \<Longrightarrow> sessionId \<notin> set inheritedNames
     \<Longrightarrow> worker h = freshWorker \<Longrightarrow> updateSession sessionId h = (Inl SessionNotFound, h)"
  by (simp add: updateSession_missing lookupSession_fresh)

text \<open>
  For an id that is a key of the collection \<open>updateSession\<close> does what it is meant to: it
  fails with "No saveable tabs found in the current window." when the safe-filter of the
  window's tabs is empty. Otherwise it returns the session with its \<open>tabs\<close> replaced by
  the safe tabs of the window, each as \<open>{ url, title: title || url }\<close>; the stored session
  keeps its id, name and createdAt, and every other session, the order of the collection,
  the pointer, the window and the objects of the service worker are as before.
\<close>

lemma updateSession_stored:
  assumes "map_of (readSessions h) sessionId = Some s"
  shows "(safeFilter (tabsQuery h) = [] \<longrightarrow>
           updateSession sessionId h = (Inl NoSaveableTabs, h))
      \<and> (safeFilter (tabsQuery h) \<noteq> [] \<longrightarrow>
           fst (updateSession sessionId h) = Inr (Own (s\<lparr>tabs := captureTabs (tabsQuery h)\<rparr>))
         \<and> map_of (readSessions (snd (updateSession sessionId h))) sessionId
             = Some \<lparr>session_id = session_id s, name = name s, createdAt = createdAt s,
                     tabs = map (\<lambda>tab. \<lparr>url = url tab, title = jsOr (title tab) (url tab)\<rparr>)
                              (safeFilter (windowTabs h))\<rparr>
         \<and> (\<forall>k. k \<noteq> sessionId \<longrightarrow>
               map_of (readSessions (snd (updateSession sessionId h))) k
                 = map_of (readSessions h) k)
         \<and> map fst (readSessions (snd (updateSession sessionId h))) = map fst (readSessions h)
         \<and> activeSessionId (snd (updateSession sessionId h)) = activeSessionId h
         \<and> windowTabs (snd (updateSession sessionId h)) = windowTabs h
         \<and> worker (snd (updateSession sessionId h)) = worker h)
      \<and> map url (captureTabs (tabsQuery h)) = map url (safeFilter (windowTabs h))"
proof -
  from assms have own: "lookupSession (worker h) (readSessions h) sessionId = Own s"
    by (rule lookupSession_own)
  from assms have key: "sessionId \<in> fst ` set (readSessions h)"
    by (rule map_of_in_keys)
  show ?thesis
    using own key
    by (auto simp: updateSession_def Let_def map_of_objSet objSet_present captureTabs_urls
          captureTabs_empty captureTabs_def [of "windowTabs h"] tabsQuery_def)
qed

lemma updateSession_stored_example:
  "updateSession ''s9'' exampleHost = (Inl SessionNotFound, exampleHost)
   \<and> updateSession ''s1'' (exampleHost\<lparr>windowTabs := [liveNewTab]\<rparr>)
       = (Inl NoSaveableTabs, exampleHost\<lparr>windowTabs := [liveNewTab]\<rparr>)
   \<and> map_of (readSessions (snd (updateSession ''s1'' exampleHost))) ''s1''
       = Some \<lparr>session_id = ''s1'', name = Some ''Work'', createdAt = 1,
               tabs = [\<lparr>url = Some (JStr ''https://x.com''), title = Some (JStr ''X'')\<rparr>]\<rparr>"
proof -
  have a: "updateSession ''s9'' exampleHost = (Inl SessionNotFound, exampleHost)"
    by (rule updateSession_unknown)
      (simp_all add: readSessions_def exampleHost_def inheritedNames_def functionNames_def)
  let ?h = "exampleHost\<lparr>windowTabs := [liveNewTab]\<rparr>"
  have "map_of (readSessions ?h) ''s1'' = Some work" and "safeFilter (tabsQuery ?h) = []"
    by (simp_all add: work_stored safeFilter_def tabsQuery_def liveNewTab_def)
  with updateSession_stored [of ?h "''s1''" work]
  have b: "updateSession ''s1'' ?h = (Inl NoSaveableTabs, ?h)" by simp
  have "safeFilter (tabsQuery exampleHost) \<noteq> []" by (simp add: window_safe)
  with updateSession_stored [OF work_stored]
  have "map_of (readSessions (snd (updateSession ''s1'' exampleHost))) ''s1''
       = Some \<lparr>session_id = session_id work, name = name work, createdAt = createdAt work,
               tabs = map (\<lambda>tab. \<lparr>url = url tab, title = jsOr (title tab) (url tab)\<rparr>)
                        (safeFilter (windowTabs exampleHost))\<rparr>"
    by simp
  then have c: "map_of (readSessions (snd (updateSession ''s1'' exampleHost))) ''s1''
       = Some \<lparr>session_id = ''s1'', name = Some ''Work'', createdAt = 1,
               tabs = [\<lparr>url = Some (JStr ''https://x.com''), title = Some (JStr ''X'')\<rparr>]\<rparr>"
    using window_safe by (simp add: tabsQuery_def) (simp add: work_def liveX_def jsOr_def)
  from a b c show ?thesis by simp
qed

lemma lookupSession_function:
  "k \<in> set functionNames \<Longrightarrow> k \<notin> fst ` set ss \<Longrightarrow> lookupSession w ss k = InheritedFunction k"
  by (auto simp: lookupSession_def functionNames_def map_of_eq_None_iff [symmetric]
        split: option.splits)

lemma updateSession_inherited_collection:
  assumes "sessionId \<in> set functionNames" and "sessionId \<notin> fst ` set (readSessions h)"
  shows "readSessions (snd (updateSession sessionId h)) = readSessions h"
  using lookupSession_function [OF assms]
  by (simp add: updateSession_def Let_def)

text \<open>
  Claim C7. \<open>updateSession\<close> tests \<open>!sessions[sessionId]\<close>. For an id that is no key of
  the collection but the name of a function that every object inherits (\<open>constructor\<close>,
  \<open>toString\<close> and the others of \<open>functionNames\<close>) the test passes: with a safe tab in the
  window the call does not fail with "Session not found." but answers success, writes the
  captured tabs to the \<open>tabs\<close> property of that function, where \<open>restoreSession\<close> finds
  them afterwards, and stores the collection as it was.
\<close>

theorem updateSession_inherited_id:
  assumes "sessionId \<in> set functionNames"
    and "sessionId \<notin> fst ` set (readSessions h)"
    and "safeFilter (tabsQuery h) \<noteq> []"
  shows "fst (updateSession sessionId h) = Inr (InheritedFunction sessionId)
       \<and> readSessions (snd (updateSession sessionId h)) = readSessions h
       \<and> map_of (functionTabs (worker (snd (updateSession sessionId h)))) sessionId
           = Some (captureTabs (tabsQuery h))
       \<and> readTabs (worker (snd (updateSession sessionId h)))
             (lookupSession (worker (snd (updateSession sessionId h)))
                (readSessions (snd (updateSession sessionId h))) sessionId)
           = Some (captureTabs (tabsQuery h))"
  using lookupSession_function [OF assms(1,2)] assms(3)
  by (simp add: updateSession_def Let_def captureTabs_empty writeTabs_def readTabs_def
      update_conv')

theorem updateSession_inherited_id_witness:
  "fst (updateSession ''constructor'' exampleHost) = Inr (InheritedFunction ''constructor'')
   \<and> ''constructor'' \<notin> fst ` set (readSessions exampleHost)
   \<and> readSessions (snd (updateSession ''constructor'' exampleHost)) = [(''s1'', work)]
   \<and> map_of (functionTabs (worker (snd (updateSession ''constructor'' exampleHost))))
         ''constructor''
       = Some [\<lparr>url = Some (JStr ''https://x.com''), title = Some (JStr ''X'')\<rparr>]"
proof -
  have f: "''constructor'' \<in> set functionNames"
    by (simp add: functionNames_def)
  have k: "''constructor'' \<notin> fst ` set (readSessions exampleHost)"
    by (simp add: readSessions_def exampleHost_def)
  have w: "safeFilter (tabsQuery exampleHost) \<noteq> []"
    by (simp add: window_safe)
  have c: "captureTabs (tabsQuery exampleHost)
             = [\<lparr>url = Some (JStr ''https://x.com''), title = Some (JStr ''X'')\<rparr>]"
    by (simp add: captureTabs_def window_safe liveX_def jsOr_def)
  have r: "readSessions exampleHost = [(''s1'', work)]"
    by (simp add: readSessions_def exampleHost_def)
  from updateSession_inherited_id [OF f k w] k c r show ?thesis by simp
qed

section \<open>Import and export\<close>

lemma lookupSession_Missing_iff:
  "lookupSession w ss k = Missing \<longleftrightarrow> k \<notin> fst ` set ss \<and> lookupSession w [] k = Missing"
  by (auto simp: lookupSession_def map_of_eq_None_iff [symmetric] split: option.splits)

lemma lookupSession_Missing_inherited:
  "lookupSession w ss k = Missing \<Longrightarrow> k \<notin> set inheritedNames"
  by (auto simp: lookupSession_def inheritedNames_def split: option.splits if_splits)

lemma safeFilter_imported:
  "safeFilter (map toTab (filter (\<lambda>tab. typeof (getProp tab ''url'') = ''string''
                                        \<and> isSafeUrl (getProp tab ''url'')) ts))
     = map toTab (filter (\<lambda>tab. typeof (getProp tab ''url'') = ''string''
                                 \<and> isSafeUrl (getProp tab ''url'')) ts)"
  by (simp add: safeFilter_def toTab_def filter_map comp_def)

lemma importEntry_cases:
  "importEntry w existing imported k s = Inr (existing', imported')
     \<Longrightarrow> existing' = existing \<and> imported' = imported
       \<or> (\<exists>v. existing' = objSet k v existing \<and> imported' = Suc imported
              \<and> lookupSession w existing k = Missing \<and> safeFilter (tabs v) = tabs v)"
  by (auto simp: importEntry_def Let_def safeFilter_imported
      split: if_splits option.splits json.splits)

lemma importEntry_keys:
  "importEntry w existing imported k s = Inr (existing', imported')
     \<Longrightarrow> fst ` set existing \<subseteq> fst ` set existing'"
  by (drule importEntry_cases) (elim disjE exE conjE, simp, simp add: keys_objSet subset_insertI)

lemma importLoop_keys:
  "importLoop w entries existing imported = Inr (existing', imported')
     \<Longrightarrow> fst ` set existing \<subseteq> fst ` set existing'"
proof (induction entries arbitrary: existing imported)
  case Nil
  then show ?case by simp
next
  case (Cons entry entries)
  obtain k s where entry: "entry = (k, s)" by (cases entry)
  from Cons.prems entry obtain ex1 im1
    where one: "importEntry w existing imported k s = Inr (ex1, im1)"
      and rest: "importLoop w entries ex1 im1 = Inr (existing', imported')"
    by (auto split: sum.splits)
  from importEntry_keys [OF one] Cons.IH [OF rest] show ?case by blast
qed

lemma getProp_tabToJson [simp]:
  "getProp (tabToJson t) ''url'' = url t" "getProp (tabToJson t) ''title'' = title t"
  by (simp_all add: tabToJson_def split: option.splits)

lemma toTab_tabToJson [simp]: "toTab (tabToJson t) = t"
  by (simp add: toTab_def)

lemma tabToJson_not_null [simp]: "tabToJson t \<noteq> JNull" "JNull \<noteq> tabToJson t"
  by (simp_all add: tabToJson_def)

lemma importEntry_exported:
  assumes "lookupSession w existing k = Missing" and "name s \<noteq> None"
  shows "importEntry w existing imported k (sessionToJson s)
           = Inr (objSet k (reimported s) existing, Suc imported)"
proof -
  from assms(2) obtain n where n: "name s = Some n" by auto
  have kept: "filter (\<lambda>tab. typeof (getProp tab ''url'') = ''string'' \<and> isSafeUrl (getProp tab ''url''))
                (map tabToJson (tabs s)) = map tabToJson (safeFilter (tabs s))"
    by (simp add: filter_map comp_def isSafeUrl_typeof safeFilter_def)
  have nonull: "JNull \<notin> set (map tabToJson (tabs s))"
    by auto
  have same: "\<lparr>session_id = session_id s, name = Some n, createdAt = createdAt s,
               tabs = safeFilter (tabs s)\<rparr> = reimported s"
    by (simp add: reimported_def n)
  show ?thesis
    using assms(1) nonull
    by (simp add: importEntry_def sessionToJson_def entryName_def entryTabs_def n kept same
        comp_def del: set_map)
qed

lemma importLoop_exported:
  assumes "distinct (map fst ss)" and "fst ` set ss \<inter> fst ` set existing = {}"
    and "\<forall>(k, s)\<in>set ss. name s \<noteq> None \<and> lookupSession w [] k = Missing"
  shows "importLoop w (map (\<lambda>(k, s). (k, sessionToJson s)) ss) existing imported
           = Inr (foldl (\<lambda>acc (k, s). objSet k (reimported s) acc) existing ss,
                  imported + length ss)"
  using assms
proof (induction ss arbitrary: existing imported)
  case Nil
  then show ?case by simp
next
  case (Cons entry ss)
  obtain k s where entry: "entry = (k, s)" by (cases entry)
  from Cons.prems entry have fresh: "lookupSession w existing k = Missing" and nm: "name s \<noteq> None"
    by (auto simp: lookupSession_Missing_iff [of w existing])
  let ?ex = "objSet k (reimported s) existing"
  from Cons.prems entry have "distinct (map fst ss)" and "fst ` set ss \<inter> fst ` set ?ex = {}"
    and "\<forall>(k, s)\<in>set ss. name s \<noteq> None \<and> lookupSession w [] k = Missing"
    by (auto simp: keys_objSet)
  from Cons.IH [OF this, of "Suc imported"] importEntry_exported [OF fresh nm, of imported]
  show ?case by (simp add: entry)
qed



lemma map_of_fold_objSet:
  "distinct (map fst ss)
     \<Longrightarrow> map_of (foldl (\<lambda>acc (k, s). objSet k (f s) acc) ex ss)
           = map_of ex ++ map_of (map (\<lambda>(k, s). (k, f s)) ss)"
proof (induction ss arbitrary: ex)
  case Nil
  show ?case by simp
next
  case (Cons entry ss)
  obtain k s where entry: "entry = (k, s)" by (cases entry)
  from Cons.prems entry have d: "distinct (map fst ss)" and k: "k \<notin> fst ` set ss" by auto
  from k have none: "map_of (map (\<lambda>(k, s). (k, f s)) ss) k = None"
    by (auto simp: map_of_eq_None_iff image_iff)
  have step: "foldl (\<lambda>acc (k, s). objSet k (f s) acc) ex (entry # ss)
                = foldl (\<lambda>acc (k, s). objSet k (f s) acc) (objSet k (f s) ex) ss"
    by (simp add: entry)
  have "map_of (foldl (\<lambda>acc (k, s). objSet k (f s) acc) (objSet k (f s) ex) ss)
          = map_of (objSet k (f s) ex) ++ map_of (map (\<lambda>(k, s). (k, f s)) ss)"
    by (rule Cons.IH [OF d])
  also have "\<dots> = (map_of ex)(k \<mapsto> f s) ++ map_of (map (\<lambda>(k, s). (k, f s)) ss)"
    by (simp only: map_of_objSet)
  also have "\<dots> = map_of ex ++ map_of (map (\<lambda>(k, s). (k, f s)) (entry # ss))"
    using none by (auto simp: entry fun_eq_iff map_add_def split: option.splits)
  finally show ?case by (simp only: step)
qed


lemma reimported_safe: "safeFilter (tabs s) = tabs s \<Longrightarrow> reimported s = s"
  by (simp add: reimported_def)

lemma reimported_fields:
  "session_id (reimported s) = session_id s" "name (reimported s) = name s"
  "createdAt (reimported s) = createdAt s" "tabs (reimported s) = safeFilter (tabs s)"
  by (simp_all add: reimported_def)

lemma importSessions_exported:
  assumes "distinct (map fst ss)"
    and "\<forall>(k, s)\<in>set ss. name s \<noteq> None \<and> lookupSession (worker h0) [] k = Missing"
    and "readSessions h0 = []"
  shows "importSessions (Some (exportPayload ss)) h0
           = (Inr (length ss),
              writeSessions (foldl (\<lambda>acc (k, s). objSet k (reimported s) acc) [] ss) h0)"
  using importLoop_exported [OF assms(1), of "[]" "worker h0" 0] assms(2,3)
  by (simp add: importSessions_def exportPayload_def)


section \<open>The hosts the extension can reach\<close>

lemma safeFilter_captureTabs: "safeFilter (captureTabs ts) = captureTabs ts"
  by (simp add: captureTabs_def safeFilter_def filter_map comp_def)

lemma safeStored_key: "safeStored ss \<Longrightarrow> k \<in> fst ` set ss \<Longrightarrow> k \<notin> set inheritedNames"
  by (auto simp: safeStored_def)

lemma safeStored_objSet:
  assumes "safeStored ss" and "safeFilter (tabs s) = tabs s" and "k \<notin> set inheritedNames"
  shows "safeStored (objSet k s ss)"
  using assms set_objSet [of k s ss]
  by (auto simp: safeStored_def distinct_objSet)

lemma safeStored_delete: "safeStored ss \<Longrightarrow> safeStored (AList.delete k ss)"
  using set_delete_subset [of k ss] by (auto simp: safeStored_def distinct_delete)

lemma safeStored_lookup:
  "safeStored ss \<Longrightarrow> map_of ss k = Some s \<Longrightarrow> safeFilter (tabs s) = tabs s"
  by (auto simp: safeStored_def dest: map_of_SomeD)

lemma importEntry_safeStored:
  assumes "importEntry w existing imported k s = Inr (existing', imported')"
    and "safeStored existing"
  shows "safeStored existing'"
  using importEntry_cases [OF assms(1)] assms(2)
  by (auto intro!: safeStored_objSet dest: lookupSession_Missing_inherited)

lemma importLoop_safeStored:
  "importLoop w entries existing imported = Inr (existing', imported') \<Longrightarrow> safeStored existing
     \<Longrightarrow> safeStored existing'"
proof (induction entries arbitrary: existing imported)
  case Nil
  then show ?case by simp
next
  case (Cons entry entries)
  obtain k s where entry: "entry = (k, s)" by (cases entry)
  from Cons.prems entry obtain ex1 im1
    where one: "importEntry w existing imported k s = Inr (ex1, im1)"
      and rest: "importLoop w entries ex1 im1 = Inr (existing', imported')"
    by (auto split: sum.splits)
  from importEntry_safeStored [OF one Cons.prems(2)] Cons.IH [OF rest] show ?case by blast
qed

lemma saveSession_safeStored:
  "safeStored (readSessions h) \<Longrightarrow> uuid \<notin> set inheritedNames
     \<Longrightarrow> safeStored (readSessions (snd (saveSession nm uuid now h)))"
  by (auto simp: saveSession_def Let_def safeFilter_captureTabs intro!: safeStored_objSet)

lemma restoreSession_collection [simp]:
  "readSessions (snd (restoreSession i c h)) = readSessions h"
  by (auto simp: restoreSession_def Let_def split: found.splits option.splits list.splits)

lemma updateSession_safeStored:
  assumes "safeStored (readSessions h)"
  shows "safeStored (readSessions (snd (updateSession i h)))"
proof (cases "lookupSession (worker h) (readSessions h) i")
  case (Own s)
  then have "i \<in> fst ` set (readSessions h)"
    by (simp add: lookupSession_Own_iff map_of_in_keys)
  with assms have "i \<notin> set inheritedNames" by (rule safeStored_key)
  with assms Own show ?thesis
    by (auto simp: updateSession_def Let_def safeFilter_captureTabs intro!: safeStored_objSet)
qed (use assms in \<open>auto simp: updateSession_def Let_def\<close>)

lemma deleteSession_safeStored:
  "safeStored (readSessions h) \<Longrightarrow> safeStored (readSessions (snd (deleteSession i h)))"
  by (auto simp: deleteSession_def Let_def intro!: safeStored_delete split: found.splits)

lemma renameSession_safeStored:
  assumes "safeStored (readSessions h)"
  shows "safeStored (readSessions (snd (renameSession i n h)))"
proof (cases "lookupSession (worker h) (readSessions h) i")
  case (Own s)
  then have s: "map_of (readSessions h) i = Some s"
    by (simp add: lookupSession_Own_iff)
  then have "i \<in> fst ` set (readSessions h)" by (rule map_of_in_keys)
  with assms have "i \<notin> set inheritedNames" by (rule safeStored_key)
  moreover from assms s have "safeFilter (tabs s) = tabs s" by (rule safeStored_lookup)
  ultimately show ?thesis
    using assms Own by (auto simp: renameSession_def Let_def intro!: safeStored_objSet)
qed (use assms in \<open>auto simp: renameSession_def Let_def\<close>)

lemma importSessions_safeStored:
  "safeStored (readSessions h) \<Longrightarrow> safeStored (readSessions (snd (importSessions d h)))"
  by (auto simp: importSessions_def
      dest: importLoop_safeStored split: option.splits sum.splits prod.splits)

lemma safeStored_handleMessage:
  assumes "safeStored (readSessions h)" and "uuid \<notin> set inheritedNames"
  shows "safeStored (readSessions (snd (handleMessage uuid now m h)))"
  using assms
  by (cases m)
    (simp_all add: saveSession_safeStored updateSession_safeStored deleteSession_safeStored
      renameSession_safeStored importSessions_safeStored getSessions_def exportSessions_def)

lemma reachable_safeStored: "reachable h \<Longrightarrow> safeStored (readSessions h)"
proof (induction rule: reachable.induct)
  case (fresh w n)
  show ?case by (simp add: safeStored_def readSessions_def)
next
  case (handled h uuid now m)
  then show ?case by (simp add: safeStored_handleMessage)
next
  case (browsed h w n)
  then show ?case by simp
next
  case (stopped h)
  then show ?case by simp
qed

text \<open>
  \<open>deleteSession(id)\<close> of a stored session that the pointer names removes the session
  and the pointer, so that \<open>getSessions\<close> then answers \<open>activeSessionId: null\<close>;
  \<open>deleteSession\<close> of any other id leaves the pointer as it is.
\<close>

lemma deleteSession_pointer:
  "(sessionId \<in> fst ` set (readSessions h) \<and> activeSessionId h = Some sessionId \<longrightarrow>
        fst (deleteSession sessionId h) = Inr ()
      \<and> sessionId \<notin> fst ` set (readSessions (snd (deleteSession sessionId h)))
      \<and> activeSessionId (snd (deleteSession sessionId h)) = None
      \<and> fst (getSessions (snd (deleteSession sessionId h)))
          = Inr (AList.delete sessionId (readSessions h), None))
   \<and> (activeSessionId h \<noteq> Some sessionId \<longrightarrow>
        activeSessionId (snd (deleteSession sessionId h)) = activeSessionId h)"
proof (intro conjI impI)
  assume "activeSessionId h \<noteq> Some sessionId"
  then show "activeSessionId (snd (deleteSession sessionId h)) = activeSessionId h"
    by (simp add: deleteSession_def Let_def split: found.splits)
next
  assume a: "sessionId \<in> fst ` set (readSessions h) \<and> activeSessionId h = Some sessionId"
  then obtain s where s: "map_of (readSessions h) sessionId = Some s"
    by (metis map_of_eq_None_iff not_Some_eq)
  then have own: "lookupSession (worker h) (readSessions h) sessionId = Own s"
    by (rule lookupSession_own)
  from a own show "fst (deleteSession sessionId h) = Inr ()"
    by (simp add: deleteSession_def Let_def)
  from a own show "sessionId \<notin> fst ` set (readSessions (snd (deleteSession sessionId h)))"
    by (simp add: deleteSession_def Let_def keys_delete)
  from a own show "activeSessionId (snd (deleteSession sessionId h)) = None"
    by (simp add: deleteSession_def Let_def)
  from a own show "fst (getSessions (snd (deleteSession sessionId h)))
          = Inr (AList.delete sessionId (readSessions h), None)"
    by (simp add: deleteSession_def Let_def getSessions_def)
qed

text \<open>
  The pointer is set by \<open>restoreSession\<close> alone; when the id it is given is a key of the
  collection, the pointer it stores is one.
\<close>

lemma restoreSession_pointer_stored:
  assumes "sessionId \<in> fst ` set (readSessions h)"
    and "fst (restoreSession sessionId c h) = Inr n"
  shows "activeSessionId (snd (restoreSession sessionId c h)) = Some sessionId
       \<and> sessionId \<in> fst ` set (readSessions (snd (restoreSession sessionId c h)))"
proof -
  from assms(1) obtain s where "map_of (readSessions h) sessionId = Some s"
    by (metis map_of_eq_None_iff not_Some_eq)
  from restoreSession_stored [OF this, of c] assms show ?thesis
    by (cases "safeFilter (tabs s) = []") auto
qed

lemma savedHost_eq:
  "savedHost = freshHost\<lparr>sessions := Some [(''u1'',
      \<lparr>session_id = ''u1'', name = Some ''Work'', createdAt = 5,
       tabs = [\<lparr>url = Some (JStr ''https://x.com''), title = Some (JStr ''X'')\<rparr>]\<rparr>)]\<rparr>"
  by (simp add: savedHost_def respond_def saveSession_def objSet_def isArrayIndex_def
      captureTabs_def safeFilter_def tabsQuery_def readSessions_def writeSessions_def jsOr_def
      freshHost_def liveX_def liveNewTab_def Let_def)

lemma restoredHost_pointer:
  "activeSessionId restoredHost = Some ''u1''"
  "readSessions restoredHost = [(''u1'',
      \<lparr>session_id = ''u1'', name = Some ''Work'', createdAt = 5,
       tabs = [\<lparr>url = Some (JStr ''https://x.com''), title = Some (JStr ''X'')\<rparr>]\<rparr>)]"
  by (simp_all add: restoredHost_def respond_def restoreSession_def savedHost_eq
      lookupSession_def readTabs_def safeFilter_def Let_def readSessions_def freshHost_def)

lemma inheritedNames_examples [simp]:
  "''u1'' \<notin> set inheritedNames" "''u2'' \<notin> set inheritedNames" "''u3'' \<notin> set inheritedNames"
  "''s1'' \<notin> set inheritedNames" "''s2'' \<notin> set inheritedNames" "''k1'' \<notin> set inheritedNames"
  "''7'' \<notin> set inheritedNames" "''constructor'' \<in> set inheritedNames"
  by (simp_all add: inheritedNames_def functionNames_def)

lemma restoredHost_reachable: "reachable restoredHost"
  unfolding restoredHost_def savedHost_def freshHost_def
  by (intro reachable.handled reachable.fresh) simp_all

lemma restoredHost_delete:
  "reachable restoredHost
   \<and> activeSessionId restoredHost = Some ''u1''
   \<and> ''u1'' \<in> fst ` set (readSessions restoredHost)
   \<and> fst (getSessions (snd (deleteSession ''u1'' restoredHost))) = Inr ([], None)
   \<and> activeSessionId (snd (deleteSession ''u7'' restoredHost)) = Some ''u1''"
proof -
  have k: "''u1'' \<in> fst ` set (readSessions restoredHost)"
    by (simp add: restoredHost_pointer(2))
  with deleteSession_pointer [of "''u1''" restoredHost] restoredHost_pointer(1)
  have "fst (getSessions (snd (deleteSession ''u1'' restoredHost)))
          = Inr (AList.delete ''u1'' (readSessions restoredHost), None)"
    by blast
  then have g: "fst (getSessions (snd (deleteSession ''u1'' restoredHost))) = Inr ([], None)"
    by (simp add: restoredHost_pointer(2))
  from deleteSession_pointer [of "''u7''" restoredHost] restoredHost_pointer(1)
  have o: "activeSessionId (snd (deleteSession ''u7'' restoredHost)) = Some ''u1''" by simp
  from restoredHost_reachable restoredHost_pointer(1) k g o show ?thesis by simp
qed

lemma update_then_restore:
  assumes "''constructor'' \<notin> fst ` set (readSessions h)"
    and "safeFilter (tabsQuery h) \<noteq> []"
  shows "fst (restoreSession ''constructor'' c (snd (updateSession ''constructor'' h))) = Inr 0
       \<and> activeSessionId (snd (restoreSession ''constructor'' c
                                 (snd (updateSession ''constructor'' h))))
           = Some ''constructor''"
proof -
  let ?h1 = "snd (updateSession ''constructor'' h)"
  have f: "''constructor'' \<in> set functionNames" by (simp add: functionNames_def)
  have keys: "readSessions ?h1 = readSessions h"
    and found: "lookupSession (worker ?h1) (readSessions ?h1) ''constructor''
                  = InheritedFunction ''constructor''"
    and tabs1: "readTabs (worker ?h1) (InheritedFunction ''constructor'')
                  = Some (captureTabs (tabsQuery h))"
    using lookupSession_function [OF f assms(1)] assms(2)
    by (simp_all add: updateSession_def Let_def captureTabs_empty writeTabs_def readTabs_def
        update_conv' lookupSession_function [OF f] assms(1))
  from assms(2) obtain first rest where fr: "captureTabs (tabsQuery h) = first # rest"
    by (cases "captureTabs (tabsQuery h)") (simp_all add: captureTabs_empty)
  have safe: "safeFilter (captureTabs (tabsQuery h)) = first # rest"
    unfolding fr [symmetric] by (rule safeFilter_captureTabs)
  show ?thesis
    using found tabs1 safe fr by (simp add: restoreSession_def Let_def)
qed

text \<open>
  Claim C8. The pointer is stored by \<open>restoreSession\<close>, behind the test \<open>!session\<close> of
  \<open>sessions[sessionId]\<close>. In any host the operations can reach whose window shows a safe
  tab, \<open>updateSession("constructor")\<close> followed by \<open>restoreSession("constructor", false)\<close>
  succeeds (the first writes the tabs to the inherited \<open>constructor\<close>, the second reads
  them there), and the host reached has the pointer \<open>"constructor"\<close>, which is no key of
  the collection: \<open>getSessions\<close> answers an \<open>activeSessionId\<close> that names no session.
\<close>

theorem pointer_names_inherited_property:
  assumes "reachable h" and "safeFilter (tabsQuery h) \<noteq> []"
  shows "reachable (snd (handleMessage u' n' (RestoreSession ''constructor'' False)
                      (snd (handleMessage u n (UpdateSession ''constructor'') h))))
       \<and> activeSessionId (snd (handleMessage u' n' (RestoreSession ''constructor'' False)
                      (snd (handleMessage u n (UpdateSession ''constructor'') h))))
           = Some ''constructor''
       \<and> ''constructor'' \<notin> fst ` set (readSessions
                     (snd (handleMessage u' n' (RestoreSession ''constructor'' False)
                      (snd (handleMessage u n (UpdateSession ''constructor'') h)))))
       \<and> fst (getSessions (snd (handleMessage u' n' (RestoreSession ''constructor'' False)
                      (snd (handleMessage u n (UpdateSession ''constructor'') h)))))
           = Inr (readSessions h, Some ''constructor'')"
proof -
  let ?h1 = "snd (handleMessage ''u1'' 0 (UpdateSession ''constructor'') h)"
  let ?h2 = "snd (handleMessage ''u1'' 0 (RestoreSession ''constructor'' False) ?h1)"
  have same: "snd (handleMessage u' n' (RestoreSession ''constructor'' False)
                      (snd (handleMessage u n (UpdateSession ''constructor'') h))) = ?h2"
    by simp
  from assms(1) have "reachable ?h1"
    by (rule reachable.handled) simp
  then have r: "reachable ?h2"
    by (rule reachable.handled) simp
  from assms(1) have "safeStored (readSessions h)" by (rule reachable_safeStored)
  then have k: "''constructor'' \<notin> fst ` set (readSessions h)"
    using safeStored_key [of "readSessions h" "''constructor''"] by auto
  from update_then_restore [OF k assms(2), of False]
  have p: "activeSessionId ?h2 = Some ''constructor''" by simp
  have f: "''constructor'' \<in> set functionNames" by (simp add: functionNames_def)
  have c: "readSessions ?h2 = readSessions h"
    using updateSession_inherited_collection [OF f k] by simp
  from r p c k show ?thesis
    by (simp only: same) (simp add: getSessions_def)
qed

theorem pointer_names_inherited_property_witness:
  "reachable importedHost
   \<and> reachable strayHost
   \<and> activeSessionId strayHost = Some ''constructor''
   \<and> map fst (readSessions strayHost) = [''k1'']
   \<and> map (session_id \<circ> snd) (readSessions strayHost) = [''constructor'']"
proof -
  have r: "reachable importedHost"
    unfolding importedHost_def freshHost_def
    by (intro reachable.handled reachable.fresh) simp
  have i: "readSessions importedHost
             = [(''k1'', \<lparr>session_id = ''constructor'', name = Some ''Work'', createdAt = 1,
                           tabs = [tabA]\<rparr>)]"
    by (simp add: importedHost_def respond_def importSessions_def strayFile_def importEntry_def
        entryName_def entryTabs_def lookupSession_def freshWorker_def functionNames_def
        objSet_def isArrayIndex_def toTab_def tabA_def readSessions_def writeSessions_def
        freshHost_def)
  have w: "windowTabs importedHost = [liveX, liveNewTab]"
    by (simp add: importedHost_def respond_def importSessions_def strayFile_def importEntry_def
        entryName_def entryTabs_def lookupSession_def freshWorker_def functionNames_def
        objSet_def isArrayIndex_def toTab_def tabA_def readSessions_def writeSessions_def
        freshHost_def)
  then have s: "safeFilter (tabsQuery importedHost) \<noteq> []"
    by (simp add: tabsQuery_def safeFilter_def liveX_def)
  from pointer_names_inherited_property [OF r s, of "''u3''" 3 "''u2''" 2] i r
  show ?thesis
    by (simp add: strayHost_def getSessions_def)
qed

section \<open>Import of an export\<close>

text \<open>
  Claim C5. \<open>importSessions\<close> tests the payload with
  \<open>!data || typeof data !== "object" || typeof data.sessions !== "object"\<close>, and
  \<open>typeof\<close> is \<open>"object"\<close> for \<open>null\<close> and for an array. A payload whose \<open>sessions\<close> is
  \<open>null\<close> passes the test and fails in \<open>Object.entries\<close> with the engine's TypeError, not
  with "Invalid import file format."; a payload whose \<open>sessions\<close> is an array passes the
  test and is imported, its elements stored under their indices.
\<close>

theorem importSessions_sessions_null_or_array:
  "importSessions (Some (JObj [(''sessions'', JNull)])) h = (Inl TypeError, h)
   \<and> importSessions
       (Some (JObj [(''sessions'',
          JArr [JObj [(''id'', JStr ''x''), (''name'', JStr ''Work''), (''createdAt'', JNum 1),
                      (''tabs'', JArr [])]])]))
       \<lparr>sessions = None, activeSessionId = None, windowTabs = [], nextTabId = 0,
        worker = freshWorker\<rparr>
     = (Inr 1,
        \<lparr>sessions = Some [(''0'', \<lparr>session_id = ''x'', name = Some ''Work'', createdAt = 1,
                                  tabs = []\<rparr>)],
         activeSessionId = None, windowTabs = [], nextTabId = 0, worker = freshWorker\<rparr>)"
  by (simp add: importSessions_def importEntry_def entryName_def entryTabs_def lookupSession_def
      freshWorker_def functionNames_def objSet_def isArrayIndex_def readSessions_def
      writeSessions_def)

theorem importSessions_sessions_null_witness:
  "fst (importSessions (Some (JObj [(''sessions'', JNull)])) exampleHost) = Inl TypeError
   \<and> snd (importSessions (Some (JObj [(''sessions'', JNull)])) exampleHost) = exampleHost
   \<and> message_of TypeError \<noteq> message_of InvalidImportFormat"
  using importSessions_sessions_null_or_array [of exampleHost] by simp


lemma length_objSet_fresh: "k \<notin> fst ` set ps \<Longrightarrow> length (objSet k v ps) = Suc (length ps)"
  by (simp add: objSet_def length_insertIndex)

lemma popupExport_eq: "popupExport h = Some (exportPayload (readSessions h))"
  by (simp add: popupExport_def exportSessions_def)



lemma reimported_all_safe:
  "\<forall>(k, s)\<in>set ss. safeFilter (tabs s) = tabs s \<Longrightarrow> map (\<lambda>(k, s). (k, reimported s)) ss = ss"
  by (induction ss) (auto simp: reimported_safe)



text \<open>
  In the hosts the operations can reach every stored tab is safe and no key is a name
  that objects inherit: what such a host exports, a service worker whose objects nothing
  has written to imports into an empty store as the same collection.
\<close>

lemma reachable_export_import:
  assumes "reachable h" and "\<forall>(k, s)\<in>set (readSessions h). name s \<noteq> None"
    and "readSessions h0 = []" and "worker h0 = freshWorker"
  shows "fst (importSessions (popupExport h) h0) = Inr (length (readSessions h))
       \<and> map_of (readSessions (snd (importSessions (popupExport h) h0)))
           = map_of (readSessions h)"
proof -
  from assms(1) have safe: "safeStored (readSessions h)" by (rule reachable_safeStored)
  then have d: "distinct (map fst (readSessions h))"
    and t: "\<forall>(k, s)\<in>set (readSessions h). safeFilter (tabs s) = tabs s"
    by (auto simp: safeStored_def)
  have "\<forall>(k, s)\<in>set (readSessions h). name s \<noteq> None \<and> lookupSession (worker h0) [] k = Missing"
    using assms(2,4) safe by (auto simp: safeStored_def lookupSession_fresh)
  from importSessions_exported [OF d this assms(3)] map_of_fold_objSet [OF d, of reimported "[]"]
    reimported_all_safe [OF t]
  show ?thesis by (simp add: popupExport_eq)
qed

text \<open>
  A key that names an inherited property is skipped by \<open>importSessions\<close>, whatever is
  stored; no collection that the operations can reach has such a key.
\<close>

lemma importSessions_inherited_key:
  "importSessions (Some (exportPayload [(''constructor'', work)])) emptyHost
     = (Inr 0, writeSessions [] emptyHost)"
  by (simp add: importSessions_def exportPayload_def importEntry_def lookupSession_def
      functionNames_def readSessions_def emptyHost_def)

lemma reachable_keys:
  "reachable h \<Longrightarrow> k \<in> fst ` set (readSessions h) \<Longrightarrow> k \<notin> set inheritedNames"
  using reachable_safeStored safeStored_key by blast

section \<open>Rename and import over stored sessions\<close>

text \<open>
  \<open>renameSession(id, newName)\<close> with a name that is not blank stores the trimmed name for
  a stored session and changes nothing else: its id, createdAt and tabs, the other
  sessions, the order of the collection, the pointer and the window are as before.
\<close>

lemma renameSession_outcome:
  "(newName = [] \<or> trim newName = [] \<longrightarrow>
      renameSession sessionId newName h = (Inl SessionNameEmpty, h))
   \<and> (trim newName \<noteq> [] \<and> lookupSession (worker h) (readSessions h) sessionId = Missing \<longrightarrow>
        renameSession sessionId newName h = (Inl SessionNotFound, h))
   \<and> (\<forall>s. trim newName \<noteq> [] \<and> map_of (readSessions h) sessionId = Some s \<longrightarrow>
        fst (renameSession sessionId newName h) = Inr ()
      \<and> map_of (readSessions (snd (renameSession sessionId newName h))) sessionId
          = Some \<lparr>session_id = session_id s, name = Some (trim newName),
                  createdAt = createdAt s, tabs = tabs s\<rparr>
      \<and> (\<forall>k. k \<noteq> sessionId \<longrightarrow>
            map_of (readSessions (snd (renameSession sessionId newName h))) k
              = map_of (readSessions h) k)
      \<and> map fst (readSessions (snd (renameSession sessionId newName h)))
          = map fst (readSessions h)
      \<and> activeSessionId (snd (renameSession sessionId newName h)) = activeSessionId h
      \<and> windowTabs (snd (renameSession sessionId newName h)) = windowTabs h)"
proof -
  have "trim newName \<noteq> [] \<Longrightarrow> newName \<noteq> []" by (rule trim_nonempty)
  then show ?thesis
    by (auto simp: renameSession_def Let_def lookupSession_own map_of_objSet
          objSet_present [OF map_of_in_keys])
qed

lemma importEntry_keeps:
  assumes "importEntry w existing imported k s = Inr (existing', imported')"
    and "map_of existing k' = Some v"
  shows "map_of existing' k' = Some v"
proof -
  from assms(2) have k': "k' \<in> fst ` set existing" by (rule map_of_in_keys)
  from importEntry_cases [OF assms(1)] show ?thesis
  proof (elim disjE exE conjE)
    assume "existing' = existing"
    with assms(2) show ?thesis by simp
  next
    fix x
    assume "existing' = objSet k x existing" and "lookupSession w existing k = Missing"
    moreover from this(2) have "k \<notin> fst ` set existing" by (rule lookupSession_Missing)
    with k' have "k' \<noteq> k" by auto
    ultimately show ?thesis using assms(2) by (simp add: map_of_objSet)
  qed
qed

lemma importEntry_count:
  "importEntry w existing imported k s = Inr (existing', imported') \<Longrightarrow>
     length existing' = length existing + (imported' - imported) \<and> imported \<le> imported'"
  by (drule importEntry_cases) (auto simp: length_objSet_fresh dest: lookupSession_Missing)

lemma importLoop_keeps:
  "importLoop w entries existing imported = Inr (existing', imported') \<Longrightarrow>
     map_of existing k' = Some v \<Longrightarrow> map_of existing' k' = Some v"
proof (induction entries arbitrary: existing imported)
  case Nil
  then show ?case by simp
next
  case (Cons entry entries)
  obtain k s where entry: "entry = (k, s)" by (cases entry)
  from Cons.prems entry obtain ex1 im1
    where one: "importEntry w existing imported k s = Inr (ex1, im1)"
      and rest: "importLoop w entries ex1 im1 = Inr (existing', imported')"
    by (auto split: sum.splits)
  from importEntry_keeps [OF one Cons.prems(2)] Cons.IH [OF rest] show ?case by blast
qed

lemma importLoop_count:
  "importLoop w entries existing imported = Inr (existing', imported') \<Longrightarrow>
     length existing' = length existing + (imported' - imported) \<and> imported \<le> imported'"
proof (induction entries arbitrary: existing imported)
  case Nil
  then show ?case by simp
next
  case (Cons entry entries)
  obtain k s where entry: "entry = (k, s)" by (cases entry)
  from Cons.prems entry obtain ex1 im1
    where one: "importEntry w existing imported k s = Inr (ex1, im1)"
      and rest: "importLoop w entries ex1 im1 = Inr (existing', imported')"
    by (auto split: sum.splits)
  from importEntry_count [OF one] Cons.IH [OF rest] show ?case by auto
qed

text \<open>
  \<open>importSessions\<close> never overwrites: after a successful import every session that was
  stored is stored unchanged under its key, the pointer and the window are as before, and
  the collection has grown by exactly the number of sessions reported as imported.
\<close>

lemma importSessions_keeps_stored_sessions:
  assumes "importSessions data h = (Inr imported, h')"
  shows "(\<forall>k s. map_of (readSessions h) k = Some s \<longrightarrow> map_of (readSessions h') k = Some s)
       \<and> length (readSessions h') = length (readSessions h) + imported
       \<and> activeSessionId h' = activeSessionId h \<and> windowTabs h' = windowTabs h"
proof -
  from assms obtain entries existing
    where loop: "importLoop (worker h) entries (readSessions h) 0 = Inr (existing, imported)"
      and h': "h' = writeSessions existing h"
    by (auto simp: importSessions_def split: option.splits if_splits sum.splits prod.splits)
  from importLoop_keeps [OF loop] importLoop_count [OF loop] h' show ?thesis by simp
qed

section \<open>Failures\<close>

lemma saveSession_failure:
  "fst (saveSession nm uuid now h) = Inl e \<Longrightarrow> snd (saveSession nm uuid now h) = h"
  by (auto simp: saveSession_def Let_def split: if_splits)

lemma restoreSession_failure:
  "fst (restoreSession i c h) = Inl e \<Longrightarrow> snd (restoreSession i c h) = h"
  by (auto simp: restoreSession_def Let_def split: found.splits option.splits list.splits)

lemma updateSession_failure:
  "fst (updateSession i h) = Inl e \<Longrightarrow> snd (updateSession i h) = h"
  by (auto simp: updateSession_def Let_def split: found.splits if_splits)

lemma deleteSession_failure:
  "fst (deleteSession i h) = Inl e \<Longrightarrow> snd (deleteSession i h) = h"
  by (auto simp: deleteSession_def Let_def split: found.splits if_splits)

lemma renameSession_failure:
  "fst (renameSession i n h) = Inl e \<Longrightarrow> snd (renameSession i n h) = h"
  by (auto simp: renameSession_def Let_def split: found.splits if_splits)

lemma importSessions_failure:
  "fst (importSessions d h) = Inl e \<Longrightarrow> snd (importSessions d h) = h"
  by (auto simp: importSessions_def split: option.splits if_splits sum.splits prod.splits)

lemma handleMessage_failure:
  "fst (handleMessage uuid now m h) = Inl e \<Longrightarrow> snd (handleMessage uuid now m h) = h"
  by (cases m)
    (simp_all add: respond_fst_Inl saveSession_failure restoreSession_failure
      updateSession_failure deleteSession_failure renameSession_failure importSessions_failure
      getSessions_def exportSessions_def)

text \<open>
  Claim C10. Whenever one of the eight operations answers with a failure, the host (the
  stored collection, the pointer and the window) is what it was before the message. This
  holds for \<open>saveSession\<close> with a name that is empty after \<open>trim\<close> or with no safe tab in
  the window, and for \<open>updateSession\<close>, \<open>renameSession\<close> and \<open>restoreSession\<close> with any
  failure of theirs.
\<close>

theorem failure_leaves_host_unchanged:
  "(fst (handleMessage uuid now m h) = Inl e \<longrightarrow> snd (handleMessage uuid now m h) = h)
   \<and> (nm = [] \<or> trim nm = [] \<longrightarrow> saveSession nm uuid now h = (Inl SessionNameEmpty, h))
   \<and> (safeFilter (tabsQuery h) = [] \<and> trim nm \<noteq> [] \<longrightarrow>
        saveSession nm uuid now h = (Inl NoSaveableTabs, h))
   \<and> (fst (saveSession nm uuid now h) = Inl e \<longrightarrow> snd (saveSession nm uuid now h) = h)
   \<and> (fst (updateSession sessionId h) = Inl e \<longrightarrow> snd (updateSession sessionId h) = h)
   \<and> (fst (renameSession sessionId nm h) = Inl e \<longrightarrow> snd (renameSession sessionId nm h) = h)
   \<and> (fst (restoreSession sessionId c h) = Inl e \<longrightarrow> snd (restoreSession sessionId c h) = h)"
proof -
  have "trim nm \<noteq> [] \<Longrightarrow> nm \<noteq> []" by (rule trim_nonempty)
  then show ?thesis
    using handleMessage_failure [of uuid now m h e]
    by (auto simp: saveSession_failure updateSession_failure renameSession_failure
        restoreSession_failure saveSession_def captureTabs_def Let_def)
qed

theorem failure_leaves_host_unchanged_witness:
  "handleMessage ''u1'' 5 (SaveSession ''  '') exampleHost = (Inl SessionNameEmpty, exampleHost)
   \<and> handleMessage ''u1'' 5 (RenameSession ''s9'' ''Play'') exampleHost
       = (Inl SessionNotFound, exampleHost)"
proof -
  note f = failure_leaves_host_unchanged
    [of "''u1''" 5 "SaveSession ''  ''" exampleHost SessionNameEmpty "''  ''" "''s9''" True]
  from f trim_blank have s: "saveSession ''  '' ''u1'' 5 exampleHost = (Inl SessionNameEmpty, exampleHost)"
    by blast
  then have a: "handleMessage ''u1'' 5 (SaveSession ''  '') exampleHost = (Inl SessionNameEmpty, exampleHost)"
    by (simp add: respond_def)
  have r: "fst (handleMessage ''u1'' 5 (RenameSession ''s9'' ''Play'') exampleHost) = Inl SessionNotFound"
    by (simp add: respond_def renameSession_def lookupSession_def functionNames_def
        freshWorker_def readSessions_def exampleHost_def)
  note g = failure_leaves_host_unchanged
    [of "''u1''" 5 "RenameSession ''s9'' ''Play''" exampleHost SessionNotFound "''Play''" "''s9''" True]
  from g r have "snd (handleMessage ''u1'' 5 (RenameSession ''s9'' ''Play'') exampleHost) = exampleHost"
    by blast
  with r have b: "handleMessage ''u1'' 5 (RenameSession ''s9'' ''Play'') exampleHost
       = (Inl SessionNotFound, exampleHost)"
    by (simp add: prod_eq_iff)
  from a b show ?thesis by simp
qed

section \<open>Activity classification\<close>

lemma every_url_iff: "list_all (\<lambda>tab. url tab \<in> C) ts \<longleftrightarrow> set (map url ts) \<subseteq> C"
  by (auto simp: list_all_iff)

lemma bannerMatch_distinct:
  assumes "distinct (map url (tabs s))" and "finite C"
  shows "bannerMatch s C \<longleftrightarrow> set (map url (tabs s)) = C"
proof
  assume m: "bannerMatch s C"
  then have sub: "set (map url (tabs s)) \<subseteq> C" and len: "length (tabs s) = card C"
    by (simp_all add: bannerMatch_def every_url_iff)
  from assms(1) have "card (set (map url (tabs s))) = length (tabs s)"
    using distinct_card by fastforce
  with len have "card (set (map url (tabs s))) = card C" by simp
  with sub assms(2) show "set (map url (tabs s)) = C"
    by (simp add: card_subset_eq)
next
  assume e: "set (map url (tabs s)) = C"
  from assms(1) have "card (set (map url (tabs s))) = length (tabs s)"
    using distinct_card by fastforce
  with e show "bannerMatch s C"
    by (auto simp: bannerMatch_def every_url_iff)
qed

lemma tabsMatch_banner: "tabsMatch s C \<longleftrightarrow> tabs s \<noteq> [] \<and> bannerMatch s C"
  by (auto simp: tabsMatch_def bannerMatch_def)

lemma bannerMatch_urls:
  assumes "mset (map url (tabs s)) = mset (map url (tabs s'))"
  shows "bannerMatch s C = bannerMatch s' C"
proof -
  from assms have "set (map url (tabs s)) = set (map url (tabs s'))"
    by (rule mset_eq_setD)
  moreover from assms have "length (map url (tabs s)) = length (map url (tabs s'))"
    by (rule mset_eq_length)
  ultimately show ?thesis
    by (simp add: bannerMatch_def every_url_iff)
qed

text \<open>
  Claim C1, amended. For a session whose stored tabs have pairwise different URLs, the
  test \<open>tabsMatch\<close> of \<open>buildSessionCard\<close> holds exactly when the session has a tab and
  the set of its URLs is the set of the URLs of the window, and the test of the
  unsaved-changes banner of \<open>renderSessions\<close> holds exactly when the two sets are equal.
  For every session, reordering the stored tabs or changing their titles changes neither
  test.
\<close>

theorem tabsMatch_without_duplicates:
  "(distinct (map url (tabs s)) \<longrightarrow>
      (tabsMatch s (currentUrlSet live)
         \<longleftrightarrow> tabs s \<noteq> [] \<and> set (map url (tabs s)) = currentUrlSet live)
    \<and> (bannerMatch s (currentUrlSet live)
         \<longleftrightarrow> set (map url (tabs s)) = currentUrlSet live))
   \<and> (mset (map url (tabs s)) = mset (map url (tabs s')) \<longrightarrow>
        tabsMatch s C = tabsMatch s' C \<and> bannerMatch s C = bannerMatch s' C)"
proof -
  have fin: "finite (currentUrlSet live)" by (simp add: currentUrlSet_def)
  have "mset (map url (tabs s)) = mset (map url (tabs s')) \<Longrightarrow> (tabs s = []) = (tabs s' = [])"
    by (metis mset_eq_length length_0_conv length_map)
  then show ?thesis
    using bannerMatch_distinct [OF _ fin, of s] bannerMatch_urls [of s s' C]
    by (auto simp: tabsMatch_banner)
qed

theorem tabsMatch_without_duplicates_witness:
  "distinct (map url (tabs work))
   \<and> set (map url (tabs work)) = currentUrlSet [liveB, liveSettings, liveA, liveA']
   \<and> tabsMatch work (currentUrlSet [liveB, liveSettings, liveA, liveA'])
   \<and> tabsMatch (work\<lparr>tabs := [tabB\<lparr>title := None\<rparr>, tabA, tabSettings]\<rparr>)
        (currentUrlSet [liveB, liveSettings, liveA, liveA'])"
proof -
  let ?live = "[liveB, liveSettings, liveA, liveA']"
  let ?w = "work\<lparr>tabs := [tabB\<lparr>title := None\<rparr>, tabA, tabSettings]\<rparr>"
  have d: "distinct (map url (tabs work))" and n: "tabs work \<noteq> []"
    and e: "set (map url (tabs work)) = currentUrlSet ?live"
    and p: "mset (map url (tabs work)) = mset (map url (tabs ?w))"
    by (auto simp: example_defs currentUrlSet_def)
  note t = tabsMatch_without_duplicates [of work ?live ?w "currentUrlSet ?live"]
  from t d n e have m: "tabsMatch work (currentUrlSet ?live)" by blast
  with t p have "tabsMatch ?w (currentUrlSet ?live)" by blast
  with d e m show ?thesis by simp
qed

theorem tabsMatch_duplicates_counterexample:
  "set (map url (tabs \<lparr>session_id = ''s1'', name = Some ''Work'', createdAt = 1,
          tabs = [\<lparr>url = Some (JStr ''https://a.com''), title = Some (JStr ''A'')\<rparr>,
                  \<lparr>url = Some (JStr ''https://a.com''), title = Some (JStr ''A'')\<rparr>]\<rparr>))
     = currentUrlSet [\<lparr>url = Some (JStr ''https://a.com''), title = Some (JStr ''A''),
                       tabId = 1, active = True\<rparr>]
   \<and> \<not> tabsMatch \<lparr>session_id = ''s1'', name = Some ''Work'', createdAt = 1,
          tabs = [\<lparr>url = Some (JStr ''https://a.com''), title = Some (JStr ''A'')\<rparr>,
                  \<lparr>url = Some (JStr ''https://a.com''), title = Some (JStr ''A'')\<rparr>]\<rparr>
        (currentUrlSet [\<lparr>url = Some (JStr ''https://a.com''), title = Some (JStr ''A''),
                       tabId = 1, active = True\<rparr>])
   \<and> set (map url (tabs \<lparr>session_id = ''s2'', name = Some ''Empty'', createdAt = 2, tabs = []\<rparr>))
     = currentUrlSet []
   \<and> \<not> tabsMatch \<lparr>session_id = ''s2'', name = Some ''Empty'', createdAt = 2, tabs = []\<rparr>
        (currentUrlSet [])"
  by (simp add: tabsMatch_def currentUrlSet_def)

lemma classification_without_duplicates:
  assumes "distinct (map url (tabs s))" and "tabs s \<noteq> []"
    and "set (map url (tabs s)) = currentUrlSet live"
  shows "isClean s (currentUrlSet live) (Some (session_id s))"
    and "session_id s \<noteq> a \<Longrightarrow> isExact s (currentUrlSet live) (Some a)"
    and "\<not> isClean s (currentUrlSet live) None"
proof -
  have fin: "finite (currentUrlSet live)" by (simp add: currentUrlSet_def)
  from assms bannerMatch_distinct [OF assms(1) fin]
  have "tabsMatch s (currentUrlSet live)" by (simp add: tabsMatch_banner)
  then show "isClean s (currentUrlSet live) (Some (session_id s))"
    and "session_id s \<noteq> a \<Longrightarrow> isExact s (currentUrlSet live) (Some a)"
    and "\<not> isClean s (currentUrlSet live) None"
    by (simp_all add: isClean_def isExact_def isTracked_def)
qed

lemma empty_session_never_matches:
  "tabs s = [] \<Longrightarrow> \<not> isClean s C a \<and> \<not> isExact s C a"
  by (simp add: isClean_def isExact_def tabsMatch_def)

lemma twoTabsRestored_eq:
  "twoTabsRestored =
     \<lparr>sessions = Some [(''s1'', \<lparr>session_id = ''s1'', name = Some ''Work'', createdAt = 1,
          tabs = [\<lparr>url = Some (JStr ''https://a.com''), title = Some (JStr ''A'')\<rparr>,
                  \<lparr>url = Some (JStr ''https://a.com''), title = Some (JStr ''A'')\<rparr>]\<rparr>)],
      activeSessionId = Some ''s1'',
      windowTabs = [\<lparr>url = Some (JStr ''https://a.com''), title = None, tabId = 3, active = True\<rparr>,
                    \<lparr>url = Some (JStr ''https://a.com''), title = None, tabId = 4, active = False\<rparr>],
      nextTabId = 5, worker = freshWorker\<rparr>"
  by (simp add: twoTabsRestored_def twoTabsHost_def respond_def saveSession_def restoreSession_def
      restoreCalls_def captureTabs_def safeFilter_def tabsQuery_def tabsCreate_def tabsRemove_def
      readSessions_def writeSessions_def lookupSession_def readTabs_def objSet_def
      isArrayIndex_def jsOr_def Let_def)

lemma twoTabsRestored_reachable: "reachable twoTabsRestored"
  unfolding twoTabsRestored_def twoTabsHost_def
  by (intro reachable.handled reachable.fresh) simp_all

lemma twoTabsRestored_banner:
  "renderSessions_isModified (readSessions twoTabsRestored)
     (currentUrlSet (tabsQuery twoTabsRestored)) (activeSessionId twoTabsRestored) = Inr True"
  by (simp add: twoTabsRestored_eq renderSessions_isModified_def lookupSession_def
      bannerMatch_def currentUrlSet_def tabsQuery_def readSessions_def)

text \<open>
  With the pointer on \<open>"constructor"\<close> the popup cannot render: \<open>renderSessions\<close> throws
  when it reads the tabs of the inherited value.
\<close>

lemma inherited_pointer_render:
  "''constructor'' \<notin> fst ` set ss
     \<Longrightarrow> renderSessions_isModified ss currentUrls (Some ''constructor'') = Inl TypeError"
  by (simp add: renderSessions_isModified_def lookupSession_constructor)

text \<open>
  Claim C3. A window that shows one page in two tabs is saved and the session is restored
  in place of the open tabs (the host \<open>twoTabsRestored\<close>): the session is the session of
  the pointer, and the set of the URLs of the window is the set of its stored URLs. The
  card is classified Modified and not Clean, because the number of stored tabs (2) is
  compared with the size of the set of URLs (1).
\<close>

theorem duplicate_urls_classified_modified:
  "set (map url (tabs \<lparr>session_id = ''s1'', name = Some ''Work'', createdAt = 1,
          tabs = [\<lparr>url = Some (JStr ''https://a.com''), title = Some (JStr ''A'')\<rparr>,
                  \<lparr>url = Some (JStr ''https://a.com''), title = Some (JStr ''A'')\<rparr>]\<rparr>))
     = currentUrlSet [\<lparr>url = Some (JStr ''https://a.com''), title = None,
                       tabId = 3, active = True\<rparr>,
                      \<lparr>url = Some (JStr ''https://a.com''), title = None,
                       tabId = 4, active = False\<rparr>]
   \<and> \<not> isClean \<lparr>session_id = ''s1'', name = Some ''Work'', createdAt = 1,
          tabs = [\<lparr>url = Some (JStr ''https://a.com''), title = Some (JStr ''A'')\<rparr>,
                  \<lparr>url = Some (JStr ''https://a.com''), title = Some (JStr ''A'')\<rparr>]\<rparr>
        (currentUrlSet [\<lparr>url = Some (JStr ''https://a.com''), title = None,
                       tabId = 3, active = True\<rparr>,
                      \<lparr>url = Some (JStr ''https://a.com''), title = None,
                       tabId = 4, active = False\<rparr>])
        (Some ''s1'')
   \<and> isModified \<lparr>session_id = ''s1'', name = Some ''Work'', createdAt = 1,
          tabs = [\<lparr>url = Some (JStr ''https://a.com''), title = Some (JStr ''A'')\<rparr>,
                  \<lparr>url = Some (JStr ''https://a.com''), title = Some (JStr ''A'')\<rparr>]\<rparr>
        (currentUrlSet [\<lparr>url = Some (JStr ''https://a.com''), title = None,
                       tabId = 3, active = True\<rparr>,
                      \<lparr>url = Some (JStr ''https://a.com''), title = None,
                       tabId = 4, active = False\<rparr>])
        (Some ''s1'')"
  by (simp add: isClean_def isModified_def isTracked_def tabsMatch_def currentUrlSet_def)

end
